theory Spec2Isabelle
  imports Complex_Main
begin

section \<open>Entities of the dispatch pipeline (backend/src/queues.ts)\<close>

text \<open>
  The persistent entities are the rows the handlers read and write through the
  models. Identifiers are natural numbers, timestamps are integers (milliseconds),
  a nullable column is an \<open>option\<close>. The status columns hold the string literals
  the handlers write; each literal is a constructor.
\<close>

datatype campaign_status = PROGRAMADA | EM_ANDAMENTO | FINALIZADA | FINALIZADA_COM_ERROS

datatype schedule_status = PENDENTE | AGENDADA | ENVIADA | ERRO

text \<open>
  The errors a handler throws. The first five are the \<open>Error(...)\<close> values built in
  the module, \<open>TypeError\<close> is a property read on \<open>null\<close> or \<open>undefined\<close>, and
  \<open>External\<close> is whatever a collaborator (persistence, channel, ticketing) rejects
  with.
\<close>

datatype error =
    CampanhaNaoIdentificada
  | ListaDeContatosInvalida
  | ContatoInvalido
  | ErroNaCriacaoDoTicket
  | ErroNoDisparoDaCampanha
  | TypeError
  | External string

record contact_list_item =
  cli_id :: nat
  cli_name :: string
  cli_number :: string
  cli_email :: string

record contact =
  ct_id :: nat
  ct_name :: string
  ct_number :: string
  ct_email :: string

text \<open>
  A campaign as \<open>getCampaign\<close> loads it. \<open>c_contacts\<close> is the value of
  \<open>campaign.contactList.contacts\<close> (the items with \<open>isWhatsappValid\<close>); it is
  \<open>None\<close> when that value is not an array.
\<close>

record campaign =
  c_id :: nat
  c_companyId :: nat
  c_status :: campaign_status
  c_scheduledAt :: "int option"
  c_completedAt :: "int option"
  c_confirmation :: bool
  c_message1 :: "string option"
  c_message2 :: "string option"
  c_message3 :: "string option"
  c_message4 :: "string option"
  c_message5 :: "string option"
  c_confirmationMessage1 :: "string option"
  c_confirmationMessage2 :: "string option"
  c_confirmationMessage3 :: "string option"
  c_confirmationMessage4 :: "string option"
  c_confirmationMessage5 :: "string option"
  c_mediaPath :: "string option"
  c_mediaName :: "string option"
  c_whatsappId :: "nat option"
  c_queueId :: "nat option"
  c_userId :: "nat option"
  c_contacts :: "contact_list_item list option"

text \<open>
  A row of CampaignShipping. The model's declaration is outside this module; the
  columns are the ones the handlers read or write, \<open>confirmation\<close> being the
  nullable column the dispatcher tests with \<open>=== null\<close>.
\<close>

record campaign_shipping =
  sh_id :: nat
  sh_campaignId :: nat
  sh_contactId :: nat
  sh_number :: string
  sh_message :: "string option"
  sh_confirmationMessage :: "string option"
  sh_confirmation :: "bool option"
  sh_deliveredAt :: "int option"
  sh_confirmationRequestedAt :: "int option"
  sh_jobId :: "nat option"

text \<open>The object \<open>campaignShipping\<close> that the preparer fills before find-or-create.\<close>

record shipping_data =
  sd_number :: string
  sd_contactId :: nat
  sd_campaignId :: nat
  sd_message :: "string option"
  sd_confirmationMessage :: "string option"

record schedule =
  sc_id :: nat
  sc_companyId :: nat
  sc_body :: string
  sc_sendAt :: int
  sc_sentAt :: "int option"
  sc_status :: schedule_status
  sc_contact :: "contact option"

record setting =
  st_companyId :: nat
  st_key :: string
  st_value :: int

record campaign_delay =
  randomMessageInterval :: int
  longerIntervalAfter :: int
  greaterInterval :: int
  fixedMessageInterval :: int

text \<open>
  Jobs of \<open>campaignQueue\<close>, one constructor per job name, the arguments in the order
  of the payload's fields: \<open>{id, delay}\<close>, \<open>{contactListItemId, campaignId, delay}\<close>,
  \<open>{campaignId, campaignShippingId, contactId}\<close>.
\<close>

datatype job_data =
    ProcessCampaign nat int
  | PrepareContact nat nat int
  | DispatchCampaign nat nat nat

record job =
  j_id :: nat
  j_data :: job_data
  j_delay :: "int option"
  j_removeOnComplete :: bool

text \<open>A \<open>SendMessage\<close> job of the queue \<open>sendScheduledMessages\<close>.\<close>

record send_job =
  sj_schedule :: schedule
  sj_delay :: int

datatype content = Text "string option" | Media string

record ticket_data =
  t_contactId :: nat
  t_queueId :: "nat option"
  t_userId :: "nat option"
  t_status :: string
  t_companyId :: nat
  t_whatsappId :: "nat option"
  t_justClose :: bool

text \<open>
  The state the handlers share: the tables, the two queues as the list of the jobs
  added so far, the events emitted on the socket, the messages handed to the channel
  session (\<open>wbot.sendMessage\<close>) and to \<open>SendMessage\<close>.
\<close>

record state =
  campaigns :: "campaign list"
  settings :: "setting list"
  shippings :: "campaign_shipping list"
  schedules :: "schedule list"
  campaignQueue :: "job list"
  sendScheduledMessages :: "send_job list"
  emitted :: "(nat \<times> campaign) list"
  sent :: "(string \<times> content) list"
  sentScheduled :: "(string \<times> string) list"

text \<open>
  What one run of a handler gets from outside the module: the clock (\<open>moment()\<close>),
  the values of \<open>Math.random\<close> (a real in [0, 1) per call; \<open>e_random k\<close> is the value
  at the k-th place where the run may call it), the built-in \<open>String.replace\<close>, and
  the answers of the collaborators, each of which may reject. Persistence calls answer
  from the tables of the state; the one persistence failure the module handles by
  itself, the re-fetch of a schedule, is an input (\<open>e_findByPkRejects\<close>).
\<close>

record env =
  e_now :: int
  e_random :: "nat \<Rightarrow> real"
  e_replace :: "string \<Rightarrow> string \<Rightarrow> string \<Rightarrow> string"
  e_ShowService :: "nat \<Rightarrow> error + contact_list_item"
  e_GetWhatsappWbot :: "nat option \<Rightarrow> error + unit"
  e_verifyContact :: "string \<Rightarrow> string \<Rightarrow> nat \<Rightarrow> error + contact"
  e_FindOrCreateTicketService :: "ticket_data \<Rightarrow> error + bool \<times> nat option"
  e_UpdateTicketService :: "ticket_data \<Rightarrow> nat \<Rightarrow> nat \<Rightarrow> error + unit"
  e_getMessageOptions :: "string option \<Rightarrow> string \<Rightarrow> error + content option"
  e_sendMessage :: "string \<Rightarrow> content \<Rightarrow> error + unit"
  e_findByPkRejects :: bool
  e_GetDefaultWhatsApp :: "nat \<Rightarrow> error + nat"
  e_SendMessage :: "nat \<Rightarrow> string \<Rightarrow> string \<Rightarrow> error + unit"

section \<open>Helpers\<close>

definition campaignDelayDefaults :: campaign_delay where
  "campaignDelayDefaults =
     \<lparr>randomMessageInterval = 20, longerIntervalAfter = 20,
      greaterInterval = 60, fixedMessageInterval = 0\<rparr>"

text \<open>\<open>x || d\<close> on numbers: \<open>d\<close> when \<open>x\<close> is zero.\<close>

definition orElse :: "int \<Rightarrow> int \<Rightarrow> int" where
  "orElse x d = (if x = 0 then d else x)"

definition parseToMilliseconds :: "int \<Rightarrow> int" where
  "parseToMilliseconds seconds = seconds * 1000"

text \<open>
  A clock reading rendered with \<open>format("YYYY-MM-DD HH:mm:ss")\<close> or with
  \<open>format("YYYY-MM-DD HH:mm")\<close>: the reading cut down to the whole second, to the
  whole minute.
\<close>

definition floorSecond :: "int \<Rightarrow> int" where
  "floorSecond t = 1000 * (t div 1000)"

definition floorMinute :: "int \<Rightarrow> int" where
  "floorMinute t = 60000 * (t div 60000)"

text \<open>
  \<open>Math.floor(Math.random() * max) + min\<close>, for the draw \<open>u\<close> of \<open>Math.random\<close>. The
  product is the product of the reals, which the double product of the code
  approximates.
\<close>

definition randomValue :: "real \<Rightarrow> int \<Rightarrow> int \<Rightarrow> int" where
  "randomValue u mn mx = \<lfloor>u * of_int mx\<rfloor> + mn"

definition getCampaign :: "state \<Rightarrow> nat \<Rightarrow> campaign option" where
  "getCampaign s i = find (\<lambda>c. c_id c = i) (campaigns s)"

text \<open>
  \<open>campaign.update(values)\<close>: the loaded object takes the values and so does the
  row with its id.
\<close>

definition campaign_update :: "(campaign \<Rightarrow> campaign) \<Rightarrow> campaign \<Rightarrow> state \<Rightarrow> campaign \<times> state" where
  "campaign_update f c s =
     (f c, s\<lparr>campaigns := map (\<lambda>r. if c_id r = c_id c then f r else r) (campaigns s)\<rparr>)"

definition markFailed :: "int \<Rightarrow> campaign \<Rightarrow> campaign" where
  "markFailed now c = c\<lparr>c_status := FINALIZADA_COM_ERROS, c_completedAt := Some now\<rparr>"

definition shipping_update ::
  "(campaign_shipping \<Rightarrow> campaign_shipping) \<Rightarrow> campaign_shipping \<Rightarrow> state \<Rightarrow> campaign_shipping \<times> state" where
  "shipping_update f r s =
     (f r, s\<lparr>shippings := map (\<lambda>x. if sh_id x = sh_id r then f x else x) (shippings s)\<rparr>)"

text \<open>\<open>queue.add\<close>: the job gets the next id of the queue and is appended.\<close>

definition queue_add :: "job_data \<Rightarrow> int option \<Rightarrow> bool \<Rightarrow> job list \<Rightarrow> job \<times> job list" where
  "queue_add d dl roc q =
     (let j = \<lparr>j_id = Suc (length q), j_data = d, j_delay = dl, j_removeOnComplete = roc\<rparr>
      in (j, q @ [j]))"

definition applySetting :: "setting \<Rightarrow> campaign_delay \<Rightarrow> campaign_delay" where
  "applySetting x d =
     (let d1 = (if st_key x = ''randomMessageInterval''
                then d\<lparr>randomMessageInterval := st_value x\<rparr> else d);
          d2 = (if st_key x = ''fixedMessageInterval''
                then d1\<lparr>fixedMessageInterval := st_value x\<rparr> else d1);
          d3 = (if st_key x = ''longerIntervalAfter''
                then d2\<lparr>longerIntervalAfter := st_value x\<rparr> else d2)
      in (if st_key x = ''greaterInterval''
          then d3\<lparr>greaterInterval := st_value x\<rparr> else d3))"

text \<open>
  \<open>getSettings\<close>: the company's rows, already parsed to numbers, override the
  defaults in the order they are read.
\<close>

definition getSettings :: "state \<Rightarrow> campaign \<Rightarrow> campaign_delay" where
  "getSettings s c =
     fold applySetting (filter (\<lambda>x. st_companyId x = c_companyId c) (settings s))
       campaignDelayDefaults"

section \<open>Campaign Completion Evaluator\<close>

definition deliveredCount :: "state \<Rightarrow> nat \<Rightarrow> nat" where
  "deliveredCount s cid =
     length (filter (\<lambda>r. sh_campaignId r = cid \<and> sh_deliveredAt r \<noteq> None) (shippings s))"

definition verifyAndFinalizeCampaign :: "int \<Rightarrow> campaign \<Rightarrow> state \<Rightarrow> error + campaign \<times> state" where
  "verifyAndFinalizeCampaign now c s =
     (case c_contacts c of
        None \<Rightarrow> Inl TypeError
      | Some contacts \<Rightarrow>
          (let count1 = length contacts;
               count2 = deliveredCount s (c_id c);
               (c', s') = (if count1 = count2
                           then campaign_update
                                  (\<lambda>r. r\<lparr>c_status := FINALIZADA, c_completedAt := Some now\<rparr>) c s
                           else (c, s))
           in Inr (c', s'\<lparr>emitted := emitted s' @ [(c_companyId c', c')]\<rparr>)))"

section \<open>Campaign Orchestrator\<close>

text \<open>
  The loop of \<open>handleProcessCampaign\<close> over the contacts: \<open>index\<close> and \<open>delay\<close> are
  the loop's variables, \<open>q\<close> is the queue. \<open>rnd k\<close> is the draw made in the
  iteration that raises \<open>index\<close> to \<open>k\<close>. \<open>index % n === 0\<close> is false for \<open>n = 0\<close>
  (the remainder is NaN).
\<close>

fun fanOut ::
  "campaign_delay \<Rightarrow> (nat \<Rightarrow> real) \<Rightarrow> nat \<Rightarrow> contact_list_item list \<Rightarrow> nat \<Rightarrow> int \<Rightarrow> job list \<Rightarrow> job list" where
  "fanOut st rnd cid [] index delay q = q"
| "fanOut st rnd cid (contact # rest) index delay q =
     (let q' = snd (queue_add (PrepareContact (cli_id contact) cid (orElse delay 0)) None True q);
          index' = index + 1;
          delay' =
            (if longerIntervalAfter st \<noteq> 0 \<and> int index' mod longerIntervalAfter st = 0
             then delay + parseToMilliseconds (orElse (greaterInterval st) 60)
             else delay + parseToMilliseconds
                    (if fixedMessageInterval st \<noteq> 0 then fixedMessageInterval st
                     else randomValue (rnd index') 0 (orElse (randomMessageInterval st) 20)))
      in fanOut st rnd cid rest index' delay' q')"

definition handleProcessCampaign :: "env \<Rightarrow> nat \<Rightarrow> int \<Rightarrow> state \<Rightarrow> error option \<times> state" where
  "handleProcessCampaign env i delay s =
     (case getCampaign s i of
        None \<Rightarrow> (Some CampanhaNaoIdentificada, s)
      | Some campaign \<Rightarrow>
          (let st = getSettings s campaign in
           case c_contacts campaign of
             None \<Rightarrow>
               (let (c1, s1) = campaign_update (markFailed (e_now env)) campaign s
                in (None, snd (campaign_update (markFailed (e_now env)) c1 s1)))
           | Some contacts \<Rightarrow>
               (let s1 = s\<lparr>campaignQueue :=
                            fanOut st (e_random env) (c_id campaign) contacts 0 delay (campaignQueue s)\<rparr>
                in (None, snd (campaign_update (\<lambda>r. r\<lparr>c_status := EM_ANDAMENTO\<rparr>) campaign s1)))))"

section \<open>Contact Preparer\<close>

definition validMessages :: "string option list \<Rightarrow> string list" where
  "validMessages ms =
     concat (map (\<lambda>m. case m of None \<Rightarrow> [] | Some x \<Rightarrow> (if x \<noteq> [] then [x] else [])) ms)"

definition getCampaignValidMessages :: "campaign \<Rightarrow> string list" where
  "getCampaignValidMessages c =
     validMessages [c_message1 c, c_message2 c, c_message3 c, c_message4 c, c_message5 c]"

definition getCampaignValidConfirmationMessages :: "campaign \<Rightarrow> string list" where
  "getCampaignValidConfirmationMessages c =
     validMessages [c_confirmationMessage1 c, c_confirmationMessage2 c, c_confirmationMessage3 c,
                    c_confirmationMessage4 c, c_confirmationMessage5 c]"

fun startsWith :: "string \<Rightarrow> string \<Rightarrow> bool" where
  "startsWith s [] = True"
| "startsWith [] (p # ps) = False"
| "startsWith (c # cs) (p # ps) = (c = p \<and> startsWith cs ps)"

fun includesStr :: "string \<Rightarrow> string \<Rightarrow> bool" where
  "includesStr [] p = (p = [])"
| "includesStr (c # cs) p = (startsWith (c # cs) p \<or> includesStr cs p)"

text \<open>
  \<open>getProcessedMessage\<close>; \<open>e_replace env m p v\<close> is the built-in
  \<open>m.replace(/p/g, v)\<close>.
\<close>

definition getProcessedMessage :: "env \<Rightarrow> string \<Rightarrow> contact \<Rightarrow> string" where
  "getProcessedMessage env msg contact =
     (let m1 = (if includesStr msg ''{nome}'' then e_replace env msg ''{nome}'' (ct_name contact) else msg);
          m2 = (if includesStr m1 ''{email}'' then e_replace env m1 ''{email}'' (ct_email contact) else m1)
      in (if includesStr m2 ''{numero}'' then e_replace env m2 ''{numero}'' (ct_number contact) else m2))"

text \<open>The zero-width non-joiner (U+200C) that prefixes a rendered message, in UTF-8.\<close>

definition zwnj :: string where
  "zwnj = [CHR 0xE2, CHR 0x80, CHR 0x8C]"

text \<open>
  One of the messages, chosen by \<open>randomValue(0, messages.length)\<close> with the draw
  \<open>u\<close>, rendered and marked; nothing when there is no message. An index outside the
  array gives \<open>undefined\<close>, on which \<open>getProcessedMessage\<close> throws.
\<close>

definition pickMessage :: "env \<Rightarrow> real \<Rightarrow> string list \<Rightarrow> contact \<Rightarrow> error + string option" where
  "pickMessage env u messages contact =
     (if messages = [] then Inr None
      else (let radomIndex = randomValue u 0 (int (length messages))
            in (if 0 \<le> radomIndex \<and> radomIndex < int (length messages)
                then Inr (Some (zwnj @ getProcessedMessage env (messages ! nat radomIndex) contact))
                else Inl TypeError)))"

definition buildShipping ::
  "env \<Rightarrow> campaign \<Rightarrow> nat \<Rightarrow> contact_list_item \<Rightarrow> contact \<Rightarrow> error + shipping_data" where
  "buildShipping env campaign campaignId contactListItem contact =
     (case pickMessage env (e_random env 1) (getCampaignValidMessages campaign) contact of
        Inl e \<Rightarrow> Inl e
      | Inr message \<Rightarrow>
          (case (if c_confirmation campaign
                 then pickMessage env (e_random env 2)
                        (getCampaignValidConfirmationMessages campaign) contact
                 else Inr None) of
             Inl e \<Rightarrow> Inl e
           | Inr confirmationMessage \<Rightarrow>
               Inr \<lparr>sd_number = ct_number contact, sd_contactId = cli_id contactListItem,
                    sd_campaignId = campaignId, sd_message = message,
                    sd_confirmationMessage = confirmationMessage\<rparr>))"

definition findShipping :: "state \<Rightarrow> nat \<Rightarrow> nat \<Rightarrow> campaign_shipping option" where
  "findShipping s campaignId contactId =
     find (\<lambda>r. sh_campaignId r = campaignId \<and> sh_contactId r = contactId) (shippings s)"

definition nextShippingId :: "campaign_shipping list \<Rightarrow> nat" where
  "nextShippingId rs = Suc (fold max (map sh_id rs) 0)"

text \<open>
  \<open>CampaignShipping.findOrCreate\<close> on the pair (campaignId, contactId): the row
  found, or a new row with the defaults and every other column null.
\<close>

definition newShipping :: "shipping_data \<Rightarrow> state \<Rightarrow> campaign_shipping" where
  "newShipping d s =
     \<lparr>sh_id = nextShippingId (shippings s), sh_campaignId = sd_campaignId d,
      sh_contactId = sd_contactId d, sh_number = sd_number d,
      sh_message = sd_message d, sh_confirmationMessage = sd_confirmationMessage d,
      sh_confirmation = None, sh_deliveredAt = None,
      sh_confirmationRequestedAt = None, sh_jobId = None\<rparr>"

definition findOrCreate :: "shipping_data \<Rightarrow> state \<Rightarrow> (campaign_shipping \<times> bool) \<times> state" where
  "findOrCreate d s =
     (case findShipping s (sd_campaignId d) (sd_contactId d) of
        Some r \<Rightarrow> ((r, False), s)
      | None \<Rightarrow>
          (let r = newShipping d s
           in ((r, True), s\<lparr>shippings := shippings s @ [r]\<rparr>)))"

text \<open>\<open>record.set(campaignShipping)\<close>: the keys present in the object are written.\<close>

definition setShipping :: "shipping_data \<Rightarrow> campaign_shipping \<Rightarrow> campaign_shipping" where
  "setShipping d r =
     r\<lparr>sh_number := sd_number d, sh_contactId := sd_contactId d, sh_campaignId := sd_campaignId d,
       sh_message := (case sd_message d of None \<Rightarrow> sh_message r | Some m \<Rightarrow> Some m),
       sh_confirmationMessage :=
         (case sd_confirmationMessage d of None \<Rightarrow> sh_confirmationMessage r | Some m \<Rightarrow> Some m)\<rparr>"

definition undelivered :: "campaign_shipping \<Rightarrow> bool" where
  "undelivered r = (sh_deliveredAt r = None \<and> sh_confirmationRequestedAt r = None)"

text \<open>
  The two conditional blocks that follow find-or-create in \<open>handlePrepareContact\<close>:
  the refresh of a record that existed and is still undelivered and unconfirmed, and
  the enqueueing of the DispatchCampaign job, whose id the record then stores.
\<close>

definition refreshRecord ::
  "shipping_data \<Rightarrow> campaign_shipping \<Rightarrow> bool \<Rightarrow> state \<Rightarrow> campaign_shipping \<times> state" where
  "refreshRecord campaignShipping record0 created s =
     (if \<not> created \<and> undelivered record0
      then shipping_update (setShipping campaignShipping) record0 s
      else (record0, s))"

definition enqueueDispatch ::
  "campaign \<Rightarrow> contact \<Rightarrow> int \<Rightarrow> campaign_shipping \<Rightarrow> state \<Rightarrow> state" where
  "enqueueDispatch campaign contact delay record1 s =
     (if undelivered record1
      then (let (nextJob, q) =
                  queue_add (DispatchCampaign (c_id campaign) (sh_id record1) (ct_id contact))
                    (Some delay) False (campaignQueue s)
            in snd (shipping_update (\<lambda>r. r\<lparr>sh_jobId := Some (j_id nextJob)\<rparr>) record1
                      (s\<lparr>campaignQueue := q\<rparr>)))
      else s)"

definition upsertShipping ::
  "campaign \<Rightarrow> contact \<Rightarrow> shipping_data \<Rightarrow> int \<Rightarrow> state \<Rightarrow> state" where
  "upsertShipping campaign contact campaignShipping delay s =
     (let ((record0, created), s1) = findOrCreate campaignShipping s;
          (record1, s2) = refreshRecord campaignShipping record0 created s1
      in enqueueDispatch campaign contact delay record1 s2)"

text \<open>The second \<open>try\<close> block of \<open>handlePrepareContact\<close>, with the state it leaves.\<close>

definition prepareBody ::
  "env \<Rightarrow> campaign \<Rightarrow> nat \<Rightarrow> nat \<Rightarrow> int \<Rightarrow> state \<Rightarrow> error option \<times> state" where
  "prepareBody env campaign contactListItemId campaignId delay s =
     (case e_ShowService env contactListItemId of
        Inl e \<Rightarrow> (Some e, s)
      | Inr contactListItem \<Rightarrow>
     (case e_GetWhatsappWbot env (c_whatsappId campaign) of
        Inl e \<Rightarrow> (Some e, s)
      | Inr _ \<Rightarrow>
     (case e_verifyContact env (cli_name contactListItem) (cli_number contactListItem)
             (c_companyId campaign) of
        Inl e \<Rightarrow> (Some e, s)
      | Inr contact \<Rightarrow>
     (case buildShipping env campaign campaignId contactListItem contact of
        Inl e \<Rightarrow> (Some e, s)
      | Inr campaignShipping \<Rightarrow>
          (let s3 = upsertShipping campaign contact campaignShipping delay s
           in (case verifyAndFinalizeCampaign (e_now env) campaign s3 of
                 Inl e \<Rightarrow> (Some e, s3)
               | Inr (c', s4) \<Rightarrow> (None, s4)))))))"

definition handlePrepareContact :: "env \<Rightarrow> nat \<Rightarrow> nat \<Rightarrow> int \<Rightarrow> state \<Rightarrow> error option \<times> state" where
  "handlePrepareContact env contactListItemId campaignId delay s =
     (case getCampaign s campaignId of
        None \<Rightarrow> (Some CampanhaNaoIdentificada, s)
      | Some campaign \<Rightarrow>
          (case prepareBody env campaign contactListItemId campaignId delay s of
             (None, s') \<Rightarrow> (None, s')
           | (Some e, s') \<Rightarrow>
               (Some ContatoInvalido, snd (campaign_update (markFailed (e_now env)) campaign s'))))"

section \<open>Dispatcher\<close>

text \<open>
  The first \<open>try\<close> block of \<open>handleDispatchCampaign\<close>: find or create the ticket,
  update it when it existed (reading \<open>ticket.id\<close>), and throw when there is none.
\<close>

definition ticketStep :: "env \<Rightarrow> ticket_data \<Rightarrow> nat \<Rightarrow> error + unit" where
  "ticketStep env newTicket companyId =
     (case e_FindOrCreateTicketService env newTicket of
        Inl e \<Rightarrow> Inl e
      | Inr (created, ticket) \<Rightarrow>
          (case (if \<not> created
                 then (case ticket of
                         None \<Rightarrow> Inl TypeError
                       | Some ticketId \<Rightarrow> e_UpdateTicketService env newTicket ticketId companyId)
                 else Inr ()) of
             Inl e \<Rightarrow> Inl e
           | Inr _ \<Rightarrow> (case ticket of None \<Rightarrow> Inl ErroNaCriacaoDoTicket | Some _ \<Rightarrow> Inr ())))"

text \<open>The ticket calls of the last \<open>catch\<close> block: the ticket is force-closed.\<close>

definition closeTicket :: "env \<Rightarrow> ticket_data \<Rightarrow> nat \<Rightarrow> error + unit" where
  "closeTicket env newTicket companyId =
     (case e_FindOrCreateTicketService env newTicket of
        Inl e \<Rightarrow> Inl e
      | Inr (created, ticket) \<Rightarrow>
          (case ticket of
             None \<Rightarrow> Inl TypeError
           | Some ticketId \<Rightarrow>
               e_UpdateTicketService env (newTicket\<lparr>t_justClose := True, t_status := ''closed''\<rparr>)
                 ticketId companyId))"

definition sendStep :: "env \<Rightarrow> string \<Rightarrow> content \<Rightarrow> state \<Rightarrow> error + state" where
  "sendStep env chatId c s =
     (case e_sendMessage env chatId c of
        Inl e \<Rightarrow> Inl e
      | Inr _ \<Rightarrow> Inr (s\<lparr>sent := sent s @ [(chatId, c)]\<rparr>))"

text \<open>
  The media of a final send: sent when the campaign has a media path and
  \<open>getMessageOptions\<close> gives an object with keys (\<open>Some\<close>).
\<close>

definition mediaStep :: "env \<Rightarrow> campaign \<Rightarrow> string \<Rightarrow> bool \<Rightarrow> state \<Rightarrow> error + state" where
  "mediaStep env campaign chatId isConfirm s =
     (case c_mediaPath campaign of
        None \<Rightarrow> Inr s
      | Some p \<Rightarrow>
          (if \<not> isConfirm \<and> p \<noteq> []
           then (case e_getMessageOptions env (c_mediaName campaign) p of
                   Inl e \<Rightarrow> Inl e
                 | Inr None \<Rightarrow> Inr s
                 | Inr (Some options) \<Rightarrow> sendStep env chatId options s)
           else Inr s))"

definition isConfirm :: "campaign \<Rightarrow> campaign_shipping \<Rightarrow> bool" where
  "isConfirm campaign campaignShipping =
     (c_confirmation campaign \<and> sh_confirmation campaignShipping = None)"

text \<open>\<open>CampaignShipping.findByPk\<close>.\<close>

definition shippingByPk :: "state \<Rightarrow> nat \<Rightarrow> campaign_shipping option" where
  "shippingByPk s i = find (\<lambda>r. sh_id r = i) (shippings s)"

text \<open>
  The second \<open>try\<close> block of \<open>handleDispatchCampaign\<close>, with the state it leaves. The
  contact included with the shipping record is taken to be there: the closing log
  line, which reads its name, is not part of the model.
\<close>

definition dispatchBody :: "env \<Rightarrow> campaign \<Rightarrow> nat \<Rightarrow> state \<Rightarrow> error option \<times> state" where
  "dispatchBody env campaign campaignShippingId s =
     (let found = shippingByPk s campaignShippingId in
      case e_GetWhatsappWbot env (c_whatsappId campaign) of
        Inl e \<Rightarrow> (Some e, s)
      | Inr _ \<Rightarrow>
     (case found of
        None \<Rightarrow> (Some TypeError, s)
      | Some campaignShipping \<Rightarrow>
          (let chatId = sh_number campaignShipping @ ''@s.whatsapp.net'';
               cf = isConfirm campaign campaignShipping
           in (case mediaStep env campaign chatId cf s of
                 Inl e \<Rightarrow> (Some e, s)
               | Inr s1 \<Rightarrow>
              (case sendStep env chatId
                      (Text (if cf then sh_confirmationMessage campaignShipping
                             else sh_message campaignShipping)) s1 of
                 Inl e \<Rightarrow> (Some e, s1)
               | Inr s2 \<Rightarrow>
                   (let confirmUpdate =
                          (if cf then (\<lambda>r. r\<lparr>sh_confirmationRequestedAt := Some (e_now env)\<rparr>)
                           else (\<lambda>r. r\<lparr>sh_deliveredAt := Some (e_now env)\<rparr>));
                        s3 = snd (shipping_update confirmUpdate campaignShipping s2)
                    in (case verifyAndFinalizeCampaign (e_now env) campaign s3 of
                          Inl e \<Rightarrow> (Some e, s3)
                        | Inr (c', s4) \<Rightarrow>
                            (None, s4\<lparr>emitted := emitted s4 @ [(c_companyId c', c')]\<rparr>))))))))"

definition handleDispatchCampaign :: "env \<Rightarrow> nat \<Rightarrow> nat \<Rightarrow> nat \<Rightarrow> state \<Rightarrow> error option \<times> state" where
  "handleDispatchCampaign env campaignId campaignShippingId contactId s =
     (case getCampaign s campaignId of
        None \<Rightarrow> (Some CampanhaNaoIdentificada, s)
      | Some campaign \<Rightarrow>
          (let newTicket = \<lparr>t_contactId = contactId, t_queueId = c_queueId campaign,
                            t_userId = c_userId campaign, t_status = ''campaign'',
                            t_companyId = c_companyId campaign,
                            t_whatsappId = c_whatsappId campaign, t_justClose = False\<rparr>
           in (case ticketStep env newTicket (c_companyId campaign) of
                 Inl e \<Rightarrow>
                   (Some ErroNoDisparoDaCampanha,
                    snd (campaign_update (markFailed (e_now env)) campaign s))
               | Inr _ \<Rightarrow>
                   (case dispatchBody env campaign campaignShippingId s of
                      (None, s') \<Rightarrow> (None, s')
                    | (Some e, s') \<Rightarrow>
                        (let s'' = snd (campaign_update (markFailed (e_now env)) campaign s')
                         in (case closeTicket env newTicket (c_companyId campaign) of
                               Inl e' \<Rightarrow> (Some e', s'')
                             | Inr _ \<Rightarrow> (Some ErroNoDisparoDaCampanha, s'')))))))"

section \<open>Campaign Verifier\<close>

text \<open>
  The rows of the query: the campaigns with status PROGRAMADA whose \<open>scheduledAt\<close>
  lies between the database's \<open>now()\<close> and one hour later.
\<close>

definition dueCampaigns :: "int \<Rightarrow> state \<Rightarrow> (nat \<times> int) list" where
  "dueCampaigns dbnow s =
     concat (map (\<lambda>c. case c_scheduledAt c of
                         None \<Rightarrow> []
                       | Some t \<Rightarrow> (if dbnow \<le> t \<and> t \<le> dbnow + 3600000 \<and> c_status c = PROGRAMADA
                                   then [(c_id c, t)] else []))
                 (campaigns s))"

text \<open>
  The loop over the rows; \<open>clock k\<close> is the reading of \<open>moment()\<close> in the iteration
  of the k-th row (from 0).
\<close>

fun verifyCampaignsLoop :: "(nat \<Rightarrow> int) \<Rightarrow> nat \<Rightarrow> (nat \<times> int) list \<Rightarrow> job list \<Rightarrow> job list" where
  "verifyCampaignsLoop clock k [] q = q"
| "verifyCampaignsLoop clock k ((i, scheduledAt) # rest) q =
     (let now = clock k;
          delay = scheduledAt - now
      in verifyCampaignsLoop clock (Suc k) rest
           (snd (queue_add (ProcessCampaign i delay) None True q)))"

definition handleVerifyCampaigns :: "int \<Rightarrow> (nat \<Rightarrow> int) \<Rightarrow> state \<Rightarrow> state" where
  "handleVerifyCampaigns dbnow clock s =
     s\<lparr>campaignQueue := verifyCampaignsLoop clock 0 (dueCampaigns dbnow s) (campaignQueue s)\<rparr>"

section \<open>Schedule Verifier\<close>

text \<open>
  \<open>now1\<close> and \<open>now2\<close> are the two readings of \<open>moment()\<close> with which the query is
  built: the lower bound is the first reading, the upper bound the second reading
  plus 30 seconds, each rendered with \<open>format("YYYY-MM-DD HH:mm:ss")\<close>.
\<close>

definition dueSchedules :: "int \<Rightarrow> int \<Rightarrow> state \<Rightarrow> schedule list" where
  "dueSchedules now1 now2 s =
     filter (\<lambda>x. sc_status x = PENDENTE \<and> sc_sentAt x = None
                 \<and> floorSecond now1 \<le> sc_sendAt x
                 \<and> sc_sendAt x \<le> floorSecond (now2 + 30000))
       (schedules s)"

fun promote :: "schedule list \<Rightarrow> state \<Rightarrow> state" where
  "promote [] s = s"
| "promote (x # xs) s =
     (let x' = x\<lparr>sc_status := AGENDADA\<rparr>;
          s1 = s\<lparr>schedules :=
                   map (\<lambda>r. if sc_id r = sc_id x then r\<lparr>sc_status := AGENDADA\<rparr> else r) (schedules s)\<rparr>;
          s2 = s1\<lparr>sendScheduledMessages :=
                    sendScheduledMessages s1 @ [\<lparr>sj_schedule = x', sj_delay = 40000\<rparr>]\<rparr>
      in promote xs s2)"

definition handleVerifySchedules :: "int \<Rightarrow> int \<Rightarrow> state \<Rightarrow> state" where
  "handleVerifySchedules now1 now2 s =
     (let rows = dueSchedules now1 now2 s;
          count = length rows
      in (if count > 0 then promote rows s else s))"

section \<open>Scheduled Message Handler\<close>

text \<open>
  The second \<open>try\<close> block up to the send: the default channel of the company, the
  number of the payload's contact, the send.
\<close>

definition sendPath :: "env \<Rightarrow> schedule \<Rightarrow> state \<Rightarrow> error + state" where
  "sendPath env schedule s =
     (case e_GetDefaultWhatsApp env (sc_companyId schedule) of
        Inl e \<Rightarrow> Inl e
      | Inr whatsapp \<Rightarrow>
          (case sc_contact schedule of
             None \<Rightarrow> Inl TypeError
           | Some c \<Rightarrow>
               (case e_SendMessage env whatsapp (ct_number c) (sc_body schedule) of
                  Inl e \<Rightarrow> Inl e
                | Inr _ \<Rightarrow>
                    Inr (s\<lparr>sentScheduled := sentScheduled s @ [(ct_number c, sc_body schedule)]\<rparr>))))"

text \<open>\<open>scheduleRecord?.update(values)\<close>: nothing when the record is null.\<close>

definition scheduleUpdate :: "(schedule \<Rightarrow> schedule) \<Rightarrow> schedule option \<Rightarrow> state \<Rightarrow> state" where
  "scheduleUpdate f scheduleRecord s =
     (case scheduleRecord of
        None \<Rightarrow> s
      | Some r \<Rightarrow>
          s\<lparr>schedules := map (\<lambda>x. if sc_id x = sc_id r then f x else x) (schedules s)\<rparr>)"

text \<open>
  \<open>schedule\<close> is the payload of the job. The re-fetch by id leaves \<open>scheduleRecord\<close>
  null when it rejects (\<open>e_findByPkRejects\<close>) or finds no row. The sent timestamp is
  the clock rendered with \<open>format("YYYY-MM-DD HH:mm")\<close>.
\<close>

definition refetched :: "env \<Rightarrow> schedule \<Rightarrow> state \<Rightarrow> schedule option" where
  "refetched env schedule s =
     (if e_findByPkRejects env then None
      else find (\<lambda>r. sc_id r = sc_id schedule) (schedules s))"

definition handleSendScheduledMessage :: "env \<Rightarrow> schedule \<Rightarrow> state \<Rightarrow> error option \<times> state" where
  "handleSendScheduledMessage env schedule s =
     (let scheduleRecord = refetched env schedule s
      in (case sendPath env schedule s of
            Inr s1 \<Rightarrow>
              (None, scheduleUpdate (\<lambda>r. r\<lparr>sc_sentAt := Some (floorMinute (e_now env)), sc_status := ENVIADA\<rparr>)
                       scheduleRecord s1)
          | Inl e \<Rightarrow>
              (Some e, scheduleUpdate (\<lambda>r. r\<lparr>sc_status := ERRO\<rparr>) scheduleRecord s)))"

section \<open>A campaign with one recipient, and collaborators that answer\<close>

definition item1 :: contact_list_item where
  "item1 = \<lparr>cli_id = 1, cli_name = ''Ana'', cli_number = ''5511900000001'',
            cli_email = ''ana@example.com''\<rparr>"

definition contact1 :: contact where
  "contact1 = \<lparr>ct_id = 7, ct_name = ''Ana'', ct_number = ''5511900000001'',
               ct_email = ''ana@example.com''\<rparr>"

definition campaign1 :: campaign where
  "campaign1 =
     \<lparr>c_id = 1, c_companyId = 1, c_status = PROGRAMADA, c_scheduledAt = Some 60000,
      c_completedAt = None, c_confirmation = False,
      c_message1 = Some ''Oi'', c_message2 = None, c_message3 = None, c_message4 = None,
      c_message5 = None,
      c_confirmationMessage1 = Some ''Confirma?'', c_confirmationMessage2 = None,
      c_confirmationMessage3 = None, c_confirmationMessage4 = None,
      c_confirmationMessage5 = None,
      c_mediaPath = None, c_mediaName = None, c_whatsappId = Some 1, c_queueId = None,
      c_userId = None, c_contacts = Some [item1]\<rparr>"

definition state1 :: state where
  "state1 =
     \<lparr>campaigns = [campaign1], settings = [], shippings = [], schedules = [],
      campaignQueue = [], sendScheduledMessages = [], emitted = [], sent = [],
      sentScheduled = []\<rparr>"

definition env1 :: env where
  "env1 =
     \<lparr>e_now = 70000, e_random = (\<lambda>k. 0), e_replace = (\<lambda>m p v. m),
      e_ShowService = (\<lambda>i. Inr item1), e_GetWhatsappWbot = (\<lambda>w. Inr ()),
      e_verifyContact = (\<lambda>n m c. Inr contact1),
      e_FindOrCreateTicketService = (\<lambda>t. Inr (True, Some 1)),
      e_UpdateTicketService = (\<lambda>t i c. Inr ()),
      e_getMessageOptions = (\<lambda>n p. Inr None), e_sendMessage = (\<lambda>c m. Inr ()),
      e_findByPkRejects = False, e_GetDefaultWhatsApp = (\<lambda>c. Inr 1),
      e_SendMessage = (\<lambda>w n b. Inr ())\<rparr>"

definition shipping1 :: campaign_shipping where
  "shipping1 =
     \<lparr>sh_id = 1, sh_campaignId = 1, sh_contactId = 1, sh_number = ''5511900000001'',
      sh_message = Some ''Oi'', sh_confirmationMessage = Some ''Confirma?'',
      sh_confirmation = None, sh_deliveredAt = None, sh_confirmationRequestedAt = None,
      sh_jobId = None\<rparr>"

text \<open>The ticketing service is down.\<close>

definition envTicketDown :: env where
  "envTicketDown = env1\<lparr>e_FindOrCreateTicketService := (\<lambda>t. Inl (External ''ticket''))\<rparr>"

text \<open>
  A run of the pipeline on \<open>state1\<close>. The verifier ticks twice, 20 seconds apart,
  before a worker takes the first ProcessCampaign job, so the campaign is fanned out
  twice; the jobs are then run in the order they were added. The first dispatch finds
  the ticketing service down.
\<close>

definition afterTicks :: state where
  "afterTicks =
     handleVerifyCampaigns 20000 (\<lambda>k. 20005) (handleVerifyCampaigns 0 (\<lambda>k. 5) state1)"

definition afterFanOut :: state where
  "afterFanOut =
     snd (handleProcessCampaign env1 1 39995 (snd (handleProcessCampaign env1 1 59995 afterTicks)))"

definition afterPrepare :: state where
  "afterPrepare =
     snd (handlePrepareContact env1 1 1 39995 (snd (handlePrepareContact env1 1 1 59995 afterFanOut)))"

definition afterFailedDispatch :: state where
  "afterFailedDispatch = snd (handleDispatchCampaign envTicketDown 1 1 7 afterPrepare)"

definition afterSecondDispatch :: state where
  "afterSecondDispatch = snd (handleDispatchCampaign env1 1 1 7 afterFailedDispatch)"

section \<open>The delays the orchestrator hands out\<close>

text \<open>
  \<open>advance st rnd k\<close> is the amount the loop of \<open>handleProcessCampaign\<close> adds to
  \<open>delay\<close> in the iteration that raises \<open>index\<close> to \<open>k\<close>, and \<open>delaySeq\<close> lists
  the values \<open>delay\<close> has when the jobs are added. \<open>delayAt new i\<close> reads the delay
  carried by the PrepareContact job of the recipient at 1-based index \<open>i\<close>.
\<close>

definition advance :: "campaign_delay \<Rightarrow> (nat \<Rightarrow> real) \<Rightarrow> nat \<Rightarrow> int" where
  "advance st rnd k =
     (if longerIntervalAfter st \<noteq> 0 \<and> int k mod longerIntervalAfter st = 0
      then parseToMilliseconds (orElse (greaterInterval st) 60)
      else parseToMilliseconds
             (if fixedMessageInterval st \<noteq> 0 then fixedMessageInterval st
              else randomValue (rnd k) 0 (orElse (randomMessageInterval st) 20)))"

fun delaySeq :: "campaign_delay \<Rightarrow> (nat \<Rightarrow> real) \<Rightarrow> nat \<Rightarrow> int \<Rightarrow> nat \<Rightarrow> int list" where
  "delaySeq st rnd index delay 0 = []"
| "delaySeq st rnd index delay (Suc n) =
     delay # delaySeq st rnd (Suc index) (delay + advance st rnd (Suc index)) n"

definition prepareDelay :: "job \<Rightarrow> int" where
  "prepareDelay j = (case j_data j of PrepareContact i c d \<Rightarrow> d | _ \<Rightarrow> 0)"

definition delayAt :: "job list \<Rightarrow> nat \<Rightarrow> int" where
  "delayAt new i = prepareDelay (new ! (i - 1))"

text \<open>Inputs for the orchestrator: 21 recipients, two recipients with a zero cooldown.\<close>

definition campaign21 :: campaign where
  "campaign21 = campaign1\<lparr>c_contacts := Some (replicate 21 item1)\<rparr>"

definition state21 :: state where
  "state21 = state1\<lparr>campaigns := [campaign21]\<rparr>"

definition envHalf :: env where
  "envHalf = env1\<lparr>e_random := (\<lambda>k. 1 / 2)\<rparr>"

definition campaign2 :: campaign where
  "campaign2 = campaign1\<lparr>c_contacts := Some [item1, item1]\<rparr>"

definition stateNoCooldown :: state where
  "stateNoCooldown =
     state1\<lparr>campaigns := [campaign2],
            settings := [\<lparr>st_companyId = 1, st_key = ''greaterInterval'', st_value = 0\<rparr>,
                         \<lparr>st_companyId = 1, st_key = ''longerIntervalAfter'', st_value = 1\<rparr>]\<rparr>"

text \<open>
  Clock readings of the worker for the Campaign Verifier: shortly after the database's
  \<open>now()\<close>, and 4 ms after the instant at which \<open>campaign1\<close> is scheduled.
\<close>

definition clockEarly :: "nat \<Rightarrow> int" where
  "clockEarly k = 5"

definition clockLate :: "nat \<Rightarrow> int" where
  "clockLate k = 60004"

text \<open>
  A schedule due in 10 seconds, the state in which the verifier has promoted it, and
  runs of the scheduled-message handler in which the send or the re-fetch fails.
\<close>

definition schedule1 :: schedule where
  "schedule1 =
     \<lparr>sc_id = 1, sc_companyId = 1, sc_body = ''Lembrete'', sc_sendAt = 10000,
      sc_sentAt = None, sc_status = PENDENTE, sc_contact = Some contact1\<rparr>"

definition stateScheduled :: state where
  "stateScheduled = state1\<lparr>schedules := [schedule1\<lparr>sc_status := AGENDADA\<rparr>]\<rparr>"

definition envNoRefetch :: env where
  "envNoRefetch = env1\<lparr>e_findByPkRejects := True\<rparr>"

definition envNoRefetchNoSend :: env where
  "envNoRefetchNoSend =
     env1\<lparr>e_findByPkRejects := True, e_SendMessage := (\<lambda>w n b. Inl (External ''send''))\<rparr>"

definition envNoSend :: env where
  "envNoSend = env1\<lparr>e_SendMessage := (\<lambda>w n b. Inl (External ''send''))\<rparr>"

section \<open>What a dispatch writes and sends\<close>

text \<open>
  The update \<open>confirmUpdate\<close> of \<open>handleDispatchCampaign\<close> as a function of the
  campaign and the shipping record it loaded, the chat id and the text it sends.
\<close>

definition confirmUpdate :: "env \<Rightarrow> campaign \<Rightarrow> campaign_shipping \<Rightarrow> campaign_shipping \<Rightarrow> campaign_shipping" where
  "confirmUpdate env c r x =
     (if isConfirm c r then x\<lparr>sh_confirmationRequestedAt := Some (e_now env)\<rparr>
      else x\<lparr>sh_deliveredAt := Some (e_now env)\<rparr>)"

definition chatIdOf :: "campaign_shipping \<Rightarrow> string" where
  "chatIdOf r = sh_number r @ ''@s.whatsapp.net''"

definition textOf :: "campaign \<Rightarrow> campaign_shipping \<Rightarrow> content" where
  "textOf c r = Text (if isConfirm c r then sh_confirmationMessage r else sh_message r)"

text \<open>
  A confirmation-enabled campaign with one prepared recipient; the same after the
  recipient's confirmation has been recorded; and two dispatches for the recipient in
  a row, with nothing recorded in between.
\<close>

definition campaignConf :: campaign where
  "campaignConf = campaign1\<lparr>c_confirmation := True\<rparr>"

definition stateConf :: state where
  "stateConf = state1\<lparr>campaigns := [campaignConf], shippings := [shipping1]\<rparr>"

definition shippingConfirmed :: campaign_shipping where
  "shippingConfirmed =
     shipping1\<lparr>sh_confirmation := Some True, sh_confirmationRequestedAt := Some 65000\<rparr>"

definition stateConfirmed :: state where
  "stateConfirmed = state1\<lparr>campaigns := [campaignConf], shippings := [shippingConfirmed]\<rparr>"

definition afterRequest :: state where
  "afterRequest = snd (handleDispatchCampaign env1 1 1 7 stateConf)"

definition afterRepeat :: state where
  "afterRepeat = snd (handleDispatchCampaign env1 1 1 7 afterRequest)"

section \<open>Shipping records as the unit of dedup\<close>

text \<open>
  The key of a shipping record, the invariant that ids and keys are unique in the
  table, and the test for DispatchCampaign jobs.
\<close>

definition pairOf :: "campaign_shipping \<Rightarrow> nat \<times> nat" where
  "pairOf r = (sh_campaignId r, sh_contactId r)"

definition uniqueShippings :: "state \<Rightarrow> bool" where
  "uniqueShippings s =
     (distinct (map sh_id (shippings s)) \<and> distinct (map pairOf (shippings s)))"

definition isDispatch :: "job \<Rightarrow> bool" where
  "isDispatch j = (case j_data j of DispatchCampaign a b k \<Rightarrow> True | _ \<Rightarrow> False)"

text \<open>
  A state in which the recipient of \<open>campaign1\<close> has been delivered to, and the state
  after two runs of the preparer for that recipient on \<open>state1\<close>.
\<close>

definition shippingDelivered :: campaign_shipping where
  "shippingDelivered = shipping1\<lparr>sh_deliveredAt := Some 1\<rparr>"

definition stateDelivered :: state where
  "stateDelivered = state1\<lparr>shippings := [shippingDelivered]\<rparr>"

definition preparedTwice :: state where
  "preparedTwice =
     snd (handlePrepareContact env1 1 1 0 (snd (handlePrepareContact env1 1 1 0 state1)))"

text \<open>A campaign that has been marked failed while its recipient is still undelivered.\<close>

definition stateFailed :: state where
  "stateFailed =
     state1\<lparr>campaigns := [campaign1\<lparr>c_status := FINALIZADA_COM_ERROS\<rparr>],
            shippings := [shipping1]\<rparr>"

text \<open>
  A shipping table with a delivered and an undelivered record of campaign 1 and a
  delivered record of campaign 2; a campaign whose recipient set is not a list; and a
  schedule whose \<open>sendAt\<close> is 29.9 seconds after a clock reading of 0.5 seconds.
\<close>

definition stateMixed :: state where
  "stateMixed =
     state1\<lparr>shippings :=
              [shipping1\<lparr>sh_deliveredAt := Some 1\<rparr>,
               shipping1\<lparr>sh_id := 2, sh_contactId := 2\<rparr>,
               shipping1\<lparr>sh_id := 3, sh_campaignId := 2, sh_deliveredAt := Some 2\<rparr>]\<rparr>"

definition campaignNoList :: campaign where
  "campaignNoList = campaign1\<lparr>c_contacts := None\<rparr>"

definition stateNoList :: state where
  "stateNoList = state1\<lparr>campaigns := [campaignNoList]\<rparr>"

definition scheduleEdge :: schedule where
  "scheduleEdge = schedule1\<lparr>sc_sendAt := 30400\<rparr>"

definition stateEdge :: state where
  "stateEdge = state1\<lparr>schedules := [scheduleEdge]\<rparr>"

section \<open>Unfolding\<close>

lemmas example_defs =
  state1_def campaign1_def item1_def contact1_def env1_def envTicketDown_def shipping1_def

lemmas handler_defs =
  handleVerifyCampaigns_def dueCampaigns_def queue_add_def
  handleProcessCampaign_def getCampaign_def getSettings_def campaign_update_def markFailed_def
  campaignDelayDefaults_def orElse_def parseToMilliseconds_def randomValue_def
  handlePrepareContact_def prepareBody_def upsertShipping_def refreshRecord_def
  enqueueDispatch_def buildShipping_def pickMessage_def
  getCampaignValidMessages_def getCampaignValidConfirmationMessages_def validMessages_def
  getProcessedMessage_def zwnj_def findOrCreate_def newShipping_def findShipping_def
  nextShippingId_def
  setShipping_def undelivered_def shipping_update_def verifyAndFinalizeCampaign_def
  deliveredCount_def handleDispatchCampaign_def ticketStep_def closeTicket_def sendStep_def
  mediaStep_def isConfirm_def dispatchBody_def shippingByPk_def

lemmas scenario_defs =
  afterSecondDispatch_def afterFailedDispatch_def afterPrepare_def afterFanOut_def afterTicks_def

section \<open>Campaign completion\<close>

text \<open>
  Claim C9, as the code has it. The Completion Evaluator reads the length of the
  campaign's recipient set first: when that set is not a list it throws there, before
  it counts, writes or emits anything. Otherwise it returns normally. Let \<open>n\<close> be the
  number of shipping records of the table whose \<open>campaignId\<close> is the campaign's id and
  whose \<open>deliveredAt\<close> is not null. When \<open>n\<close> equals the size of the recipient set,
  the loaded campaign and the row with its id get status FINALIZADA and the completion
  timestamp, and no other row changes; when the two numbers differ, the campaign and
  the table are left as they were. In both cases exactly one state-change event for
  the campaign is emitted, and the shipping table is not touched.
\<close>

theorem verifyAndFinalizeCampaign_completion:
  "(c_contacts c = None \<longrightarrow> verifyAndFinalizeCampaign now c s = Inl TypeError)
   \<and> (\<forall>contacts. c_contacts c = Some contacts \<longrightarrow>
         (\<exists>c' s'. verifyAndFinalizeCampaign now c s = Inr (c', s')
            \<and> (length contacts
                  = length (filter (\<lambda>r. sh_campaignId r = c_id c \<and> sh_deliveredAt r \<noteq> None)
                              (shippings s)) \<longrightarrow>
                 c' = c\<lparr>c_status := FINALIZADA, c_completedAt := Some now\<rparr>
                 \<and> campaigns s' =
                     map (\<lambda>r. if c_id r = c_id c
                              then r\<lparr>c_status := FINALIZADA, c_completedAt := Some now\<rparr>
                              else r) (campaigns s))
            \<and> (length contacts
                  \<noteq> length (filter (\<lambda>r. sh_campaignId r = c_id c \<and> sh_deliveredAt r \<noteq> None)
                              (shippings s)) \<longrightarrow>
                 c' = c \<and> campaigns s' = campaigns s)
            \<and> emitted s' = emitted s @ [(c_companyId c, c')]
            \<and> shippings s' = shippings s))"
  by (auto simp: verifyAndFinalizeCampaign_def deliveredCount_def campaign_update_def Let_def)

theorem verifyAndFinalizeCampaign_completion_witness:
  "c_contacts campaign1 = Some [item1]
   \<and> length (filter (\<lambda>r. sh_campaignId r = c_id campaign1 \<and> sh_deliveredAt r \<noteq> None)
               (shippings stateMixed)) = 1
   \<and> verifyAndFinalizeCampaign 70000 campaign1 stateMixed =
       Inr (campaign1\<lparr>c_status := FINALIZADA, c_completedAt := Some 70000\<rparr>,
            stateMixed\<lparr>campaigns := [campaign1\<lparr>c_status := FINALIZADA, c_completedAt := Some 70000\<rparr>],
                       emitted := [(1, campaign1\<lparr>c_status := FINALIZADA,
                                              c_completedAt := Some 70000\<rparr>)]\<rparr>)
   \<and> c_contacts campaign2 = Some [item1, item1]
   \<and> length (filter (\<lambda>r. sh_campaignId r = c_id campaign2 \<and> sh_deliveredAt r \<noteq> None)
               (shippings stateMixed)) = 1
   \<and> verifyAndFinalizeCampaign 70000 campaign2 stateMixed =
       Inr (campaign2, stateMixed\<lparr>emitted := [(1, campaign2)]\<rparr>)"
proof -
  let ?f = "campaign1\<lparr>c_status := FINALIZADA, c_completedAt := Some 70000\<rparr>"
  have h1: "c_contacts campaign1 = Some [item1]" by (simp add: campaign1_def)
  have h2: "c_contacts campaign2 = Some [item1, item1]" by (simp add: campaign2_def)
  have n1: "length (filter (\<lambda>r. sh_campaignId r = c_id campaign1 \<and> sh_deliveredAt r \<noteq> None)
               (shippings stateMixed)) = 1"
    by (simp add: stateMixed_def shipping1_def campaign1_def)
  have n2: "length (filter (\<lambda>r. sh_campaignId r = c_id campaign2 \<and> sh_deliveredAt r \<noteq> None)
               (shippings stateMixed)) = 1"
    by (simp add: stateMixed_def shipping1_def campaign2_def campaign1_def)
  from verifyAndFinalizeCampaign_completion [of campaign1 70000 stateMixed] h1
  obtain c' s' where a: "verifyAndFinalizeCampaign 70000 campaign1 stateMixed = Inr (c', s')"
    "length [item1]
       = length (filter (\<lambda>r. sh_campaignId r = c_id campaign1 \<and> sh_deliveredAt r \<noteq> None)
                   (shippings stateMixed)) \<longrightarrow>
     c' = ?f
     \<and> campaigns s' =
         map (\<lambda>r. if c_id r = c_id campaign1
                  then r\<lparr>c_status := FINALIZADA, c_completedAt := Some 70000\<rparr> else r)
           (campaigns stateMixed)"
    "emitted s' = emitted stateMixed @ [(c_companyId campaign1, c')]"
    by blast
  from a(2) n1 have c': "c' = ?f" by simp
  have r1: "verifyAndFinalizeCampaign 70000 campaign1 stateMixed =
       Inr (?f, stateMixed\<lparr>campaigns := [?f], emitted := [(1, ?f)]\<rparr>)"
    using n1
    by (simp add: verifyAndFinalizeCampaign_def deliveredCount_def campaign_update_def Let_def h1)
       (simp add: stateMixed_def state1_def campaign1_def)
  from verifyAndFinalizeCampaign_completion [of campaign2 70000 stateMixed] h2
  obtain d' t' where b: "verifyAndFinalizeCampaign 70000 campaign2 stateMixed = Inr (d', t')"
    "length [item1, item1]
       \<noteq> length (filter (\<lambda>r. sh_campaignId r = c_id campaign2 \<and> sh_deliveredAt r \<noteq> None)
                   (shippings stateMixed)) \<longrightarrow>
     d' = campaign2 \<and> campaigns t' = campaigns stateMixed"
    by blast
  have r2: "verifyAndFinalizeCampaign 70000 campaign2 stateMixed =
       Inr (campaign2, stateMixed\<lparr>emitted := [(1, campaign2)]\<rparr>)"
    using n2
    by (simp add: verifyAndFinalizeCampaign_def deliveredCount_def campaign_update_def Let_def h2)
       (simp add: stateMixed_def state1_def campaign2_def campaign1_def)
  from h1 n1 r1 h2 n2 r2 show ?thesis by (simp only: simp_thms)
qed

text \<open>
  Claim C9 as stated fails in its last part: on a campaign whose recipient set is not
  a list the evaluator throws, and the run of the Contact Preparer that invoked it ends
  with no event emitted.
\<close>

theorem non_list_recipients_counterexample:
  "verifyAndFinalizeCampaign 70000 campaignNoList stateNoList = Inl TypeError
   \<and> fst (handlePrepareContact env1 1 1 0 stateNoList) = Some ContatoInvalido
   \<and> emitted (snd (handlePrepareContact env1 1 1 0 stateNoList)) = []"
  by (simp add: stateNoList_def campaignNoList_def example_defs handler_defs Let_def)



section \<open>Pacing of the orchestrator\<close>

lemma orElse_zero: "orElse d 0 = d"
  by (simp add: orElse_def)

lemma length_delaySeq: "length (delaySeq st rnd index delay n) = n"
  by (induction n arbitrary: index delay) auto

lemma delaySeq_nth_Suc:
  "Suc k < n \<Longrightarrow>
     delaySeq st rnd index delay n ! Suc k
       = delaySeq st rnd index delay n ! k + advance st rnd (index + Suc k)"
proof (induction n arbitrary: index delay k)
  case 0
  then show ?case by simp
next
  case (Suc n)
  show ?case
  proof (cases k)
    case 0
    with Suc.prems obtain m where "n = Suc m" by (cases n) auto
    with 0 show ?thesis by simp
  next
    case (Suc j)
    with Suc.prems have "Suc j < n" by simp
    from Suc.IH [OF this, of "Suc index" "delay + advance st rnd (Suc index)"] Suc
    show ?thesis by simp
  qed
qed

lemma delaySeq_nth_0: "0 < n \<Longrightarrow> delaySeq st rnd index delay n ! 0 = delay"
  by (cases n) auto

lemma fanOut_jobs:
  "\<exists>new. fanOut st rnd cid cs index delay q = q @ new
      \<and> map j_data new = map2 (\<lambda>c d. PrepareContact (cli_id c) cid d) cs
                            (delaySeq st rnd index delay (length cs))
      \<and> (\<forall>j \<in> set new. j_removeOnComplete j \<and> j_delay j = None)"
proof (induction cs arbitrary: index delay q)
  case Nil
  then show ?case by simp
next
  case (Cons c cs)
  let ?j = "\<lparr>j_id = Suc (length q), j_data = PrepareContact (cli_id c) cid delay,
              j_delay = None, j_removeOnComplete = True\<rparr>"
  from Cons.IH [of "Suc index" "delay + advance st rnd (Suc index)" "q @ [?j]"]
  obtain new where n: "fanOut st rnd cid cs (Suc index) (delay + advance st rnd (Suc index)) (q @ [?j])
        = (q @ [?j]) @ new"
    "map j_data new = map2 (\<lambda>c d. PrepareContact (cli_id c) cid d) cs
        (delaySeq st rnd (Suc index) (delay + advance st rnd (Suc index)) (length cs))"
    "\<forall>j \<in> set new. j_removeOnComplete j \<and> j_delay j = None"
    by blast
  have "fanOut st rnd cid (c # cs) index delay q
      = fanOut st rnd cid cs (Suc index) (delay + advance st rnd (Suc index)) (q @ [?j])"
    by (simp add: Let_def queue_add_def orElse_zero advance_def)
  with n have "fanOut st rnd cid (c # cs) index delay q = q @ (?j # new)" by simp
  moreover have "map j_data (?j # new) = map2 (\<lambda>c d. PrepareContact (cli_id c) cid d) (c # cs)
                            (delaySeq st rnd index delay (length (c # cs)))"
    using n(2) by simp
  moreover have "\<forall>j \<in> set (?j # new). j_removeOnComplete j \<and> j_delay j = None"
    using n(3) by simp
  ultimately show ?case by blast
qed

lemma advance_explicit:
  "0 < k \<Longrightarrow> advance st rnd k =
     1000 * (if longerIntervalAfter st dvd int k
             then (if greaterInterval st = 0 then 60 else greaterInterval st)
             else if fixedMessageInterval st \<noteq> 0 then fixedMessageInterval st
             else \<lfloor>rnd k * real_of_int (if randomMessageInterval st = 0 then 20
                                          else randomMessageInterval st)\<rfloor>)"
  by (auto simp: advance_def parseToMilliseconds_def orElse_def randomValue_def
        mod_eq_0_iff_dvd)

lemma floor_draw_range:
  fixes u :: real and m :: int
  assumes "0 \<le> u" "u < 1" "0 < m"
  shows "0 \<le> \<lfloor>u * real_of_int m\<rfloor> \<and> \<lfloor>u * real_of_int m\<rfloor> < m"
proof
  from assms show "0 \<le> \<lfloor>u * real_of_int m\<rfloor>" by simp
  from assms have "u * real_of_int m < 1 * real_of_int m"
    by (intro mult_strict_right_mono) simp_all
  then show "\<lfloor>u * real_of_int m\<rfloor> < m" by (simp add: floor_less_iff)
qed

lemma getSettings_defaults:
  "\<forall>x \<in> set (settings s). st_companyId x \<noteq> c_companyId c \<Longrightarrow>
     getSettings s c = campaignDelayDefaults"
proof -
  assume "\<forall>x \<in> set (settings s). st_companyId x \<noteq> c_companyId c"
  then have "filter (\<lambda>x. st_companyId x = c_companyId c) (settings s) = []"
    by (simp add: filter_empty_conv)
  then show ?thesis by (simp add: getSettings_def)
qed

lemma handleProcessCampaign_queue:
  assumes "getCampaign s i = Some c" and "c_contacts c = Some cs"
  shows "\<exists>new. campaignQueue (snd (handleProcessCampaign env i delay s)) = campaignQueue s @ new
           \<and> length new = length cs
           \<and> (\<forall>k. 0 < k \<and> k \<le> length cs \<longrightarrow>
                  j_data (new ! (k - 1)) =
                    PrepareContact (cli_id (cs ! (k - 1))) (c_id c) (delayAt new k)
                  \<and> j_removeOnComplete (new ! (k - 1)) \<and> j_delay (new ! (k - 1)) = None)
           \<and> (cs \<noteq> [] \<longrightarrow> delayAt new 1 = delay)
           \<and> (\<forall>k. 0 < k \<and> k < length cs \<longrightarrow>
                  delayAt new (Suc k) = delayAt new k + advance (getSettings s c) (e_random env) k)"
proof -
  let ?st = "getSettings s c"
  let ?ds = "delaySeq ?st (e_random env) 0 delay (length cs)"
  from fanOut_jobs [of ?st "e_random env" "c_id c" cs 0 delay "campaignQueue s"]
  obtain new where n:
    "fanOut ?st (e_random env) (c_id c) cs 0 delay (campaignQueue s) = campaignQueue s @ new"
    "map j_data new = map2 (\<lambda>x d. PrepareContact (cli_id x) (c_id c) d) cs ?ds"
    "\<forall>j \<in> set new. j_removeOnComplete j \<and> j_delay j = None"
    by blast
  from n(2) have len: "length new = length cs"
    using length_map [of j_data new] by (simp add: length_delaySeq)
  have dat: "j_data (new ! k) = PrepareContact (cli_id (cs ! k)) (c_id c) (?ds ! k)"
    if "k < length cs" for k
  proof -
    from that len have "j_data (new ! k) = map j_data new ! k" by simp
    also have "\<dots> = PrepareContact (cli_id (cs ! k)) (c_id c) (?ds ! k)"
      using that by (simp add: n(2) length_delaySeq)
    finally show ?thesis .
  qed
  have da: "delayAt new (Suc k) = ?ds ! k" if "k < length cs" for k
    using dat [OF that] by (simp add: delayAt_def prepareDelay_def)
  have q: "campaignQueue (snd (handleProcessCampaign env i delay s)) = campaignQueue s @ new"
    using assms n(1) by (simp add: handleProcessCampaign_def campaign_update_def Let_def)
  have a: "\<forall>k. 0 < k \<and> k \<le> length cs \<longrightarrow>
              j_data (new ! (k - 1)) =
                PrepareContact (cli_id (cs ! (k - 1))) (c_id c) (delayAt new k)
              \<and> j_removeOnComplete (new ! (k - 1)) \<and> j_delay (new ! (k - 1)) = None"
  proof (intro allI impI)
    fix k assume k: "0 < k \<and> k \<le> length cs"
    then obtain m where m: "k = Suc m" "m < length cs" by (cases k) auto
    from m len have "new ! m \<in> set new" by simp
    with n(3) dat [OF m(2)] da [OF m(2)] m
    show "j_data (new ! (k - 1)) =
                PrepareContact (cli_id (cs ! (k - 1))) (c_id c) (delayAt new k)
              \<and> j_removeOnComplete (new ! (k - 1)) \<and> j_delay (new ! (k - 1)) = None"
      by simp
  qed
  have b: "cs \<noteq> [] \<longrightarrow> delayAt new 1 = delay"
  proof
    assume "cs \<noteq> []"
    then have "0 < length cs" by simp
    from da [OF this] delaySeq_nth_0 [OF this] show "delayAt new 1 = delay" by simp
  qed
  have c: "\<forall>k. 0 < k \<and> k < length cs \<longrightarrow>
              delayAt new (Suc k) = delayAt new k + advance ?st (e_random env) k"
  proof (intro allI impI)
    fix k assume k: "0 < k \<and> k < length cs"
    then obtain m where m: "k = Suc m" "Suc m < length cs" by (cases k) auto
    from delaySeq_nth_Suc [OF m(2), of ?st "e_random env" 0 delay]
    have "?ds ! Suc m = ?ds ! m + advance ?st (e_random env) (Suc m)" by simp
    moreover from m have "m < length cs" by simp
    ultimately show "delayAt new (Suc k) = delayAt new k + advance ?st (e_random env) k"
      using da [of m] da [of "Suc m"] m by simp
  qed
  from q len a b c show ?thesis by blast
qed

lemma state21_facts:
  "getCampaign state21 1 = Some campaign21"
  "c_contacts campaign21 = Some (replicate 21 item1)"
  "getSettings state21 campaign21 = \<lparr>randomMessageInterval = 20, longerIntervalAfter = 20,
                             greaterInterval = 60, fixedMessageInterval = 0\<rparr>"
  "\<forall>k. 0 \<le> e_random envHalf k \<and> e_random envHalf k < 1"
  "campaignQueue state21 = []"
  by (simp_all add: state21_def campaign21_def getCampaign_def getSettings_def state1_def
        campaign1_def campaignDelayDefaults_def envHalf_def env1_def)


lemma stateNoCooldown_facts:
  "getCampaign stateNoCooldown 1 = Some campaign2"
  "c_contacts campaign2 = Some [item1, item1]"
  "getSettings stateNoCooldown campaign2 =
     \<lparr>randomMessageInterval = 20, longerIntervalAfter = 1,
      greaterInterval = 0, fixedMessageInterval = 0\<rparr>"
  "campaignQueue stateNoCooldown = []"
  by (simp_all add: stateNoCooldown_def campaign2_def getCampaign_def getSettings_def state1_def
        campaign1_def campaignDelayDefaults_def applySetting_def)


text \<open>
  Claim C3, as the code has it. With the settings longerIntervalAfter = 20,
  greaterInterval = 60, randomMessageInterval = 20, fixedMessageInterval = 0 and draws
  of \<open>Math.random\<close> in [0, 1), the loop adds the cooldown after it has enqueued the
  recipient whose index is a multiple of 20: the delay carried by the job of recipient
  21 exceeds the delay carried by the job of recipient 20 by exactly 60000 ms (and
  likewise after recipient 40, 60, ...). After a recipient whose index is not a
  multiple of 20 the delay advances by a non-negative amount below 20000 ms.
\<close>

theorem handleProcessCampaign_default_pacing:
  assumes "getCampaign s i = Some c" and "c_contacts c = Some cs"
    and "getSettings s c = \<lparr>randomMessageInterval = 20, longerIntervalAfter = 20,
                             greaterInterval = 60, fixedMessageInterval = 0\<rparr>"
    and "\<forall>k. 0 \<le> e_random env k \<and> e_random env k < 1"
  shows "\<exists>new. campaignQueue (snd (handleProcessCampaign env i delay s)) = campaignQueue s @ new
           \<and> length new = length cs
           \<and> (20 < length cs \<longrightarrow> delayAt new 21 - delayAt new 20 = 60000)
           \<and> (\<forall>k. 0 < k \<and> k < length cs \<and> 20 dvd k \<longrightarrow>
                  delayAt new (Suc k) - delayAt new k = 60000)
           \<and> (\<forall>k. 0 < k \<and> k < length cs \<and> \<not> 20 dvd k \<longrightarrow>
                  0 \<le> delayAt new (Suc k) - delayAt new k
                  \<and> delayAt new (Suc k) - delayAt new k < 20000)"
proof -
  let ?st = "getSettings s c"
  from handleProcessCampaign_queue [OF assms(1,2), of env delay]
  obtain new where n:
    "campaignQueue (snd (handleProcessCampaign env i delay s)) = campaignQueue s @ new"
    "length new = length cs"
    "\<forall>k. 0 < k \<and> k < length cs \<longrightarrow>
        delayAt new (Suc k) = delayAt new k + advance ?st (e_random env) k"
    by blast
  have mult: "delayAt new (Suc k) - delayAt new k = 60000"
    if "0 < k" "k < length cs" "20 dvd k" for k
  proof -
    from that have "(20::int) dvd int k" by presburger
    with that n(3) assms(3) show ?thesis by (simp add: advance_explicit)
  qed
  have other: "0 \<le> delayAt new (Suc k) - delayAt new k
                 \<and> delayAt new (Suc k) - delayAt new k < 20000"
    if "0 < k" "k < length cs" "\<not> 20 dvd k" for k
  proof -
    from that have nd: "\<not> (20::int) dvd int k" by presburger
    from assms(4) have "0 \<le> e_random env k" "e_random env k < 1" by simp_all
    from floor_draw_range [OF this, of 20]
    have r: "0 \<le> \<lfloor>e_random env k * 20\<rfloor> \<and> \<lfloor>e_random env k * 20\<rfloor> < 20" by simp
    from that n(3) have "delayAt new (Suc k) - delayAt new k = advance ?st (e_random env) k"
      by simp
    also from that nd assms(3) have "\<dots> = 1000 * \<lfloor>e_random env k * 20\<rfloor>"
      by (simp add: advance_explicit)
    finally show ?thesis using r by simp
  qed
  have "20 < length cs \<longrightarrow> delayAt new 21 - delayAt new 20 = 60000"
    using mult [of 20] by simp
  with n(1,2) mult other show ?thesis by blast
qed


theorem handleProcessCampaign_default_pacing_witness:
  "getCampaign state21 1 = Some campaign21
   \<and> c_contacts campaign21 = Some (replicate 21 item1)
   \<and> getSettings state21 campaign21 = \<lparr>randomMessageInterval = 20, longerIntervalAfter = 20,
                             greaterInterval = 60, fixedMessageInterval = 0\<rparr>
   \<and> (\<forall>k. 0 \<le> e_random envHalf k \<and> e_random envHalf k < 1)
   \<and> length (campaignQueue (snd (handleProcessCampaign envHalf 1 0 state21))) = 21
   \<and> delayAt (campaignQueue (snd (handleProcessCampaign envHalf 1 0 state21))) 21
       - delayAt (campaignQueue (snd (handleProcessCampaign envHalf 1 0 state21))) 20 = 60000"
proof -
  from handleProcessCampaign_default_pacing [OF state21_facts(1-4), of 0]
  obtain new where n:
    "campaignQueue (snd (handleProcessCampaign envHalf 1 0 state21)) = campaignQueue state21 @ new"
    "length new = length (replicate 21 item1)"
    "20 < length (replicate 21 item1) \<longrightarrow> delayAt new 21 - delayAt new 20 = 60000"
    by blast
  from n(1) have e: "campaignQueue (snd (handleProcessCampaign envHalf 1 0 state21)) = new"
    by (simp only: state21_facts(5) append_Nil)
  from n(2,3) have "length new = 21 \<and> delayAt new 21 - delayAt new 20 = 60000" by simp
  with e state21_facts(1-4) show ?thesis by (simp only: simp_thms)
qed


text \<open>
  Claim C3 as stated fails: with 21 recipients and every draw equal to 1/2, the delay
  of recipient 20 exceeds the delay of recipient 19 by 10000 ms, not by 60000 ms.
\<close>

theorem delay_at_20_counterexample:
  "delayAt (campaignQueue (snd (handleProcessCampaign envHalf 1 0 state21))) 20
     - delayAt (campaignQueue (snd (handleProcessCampaign envHalf 1 0 state21))) 19 \<noteq> 60000"
proof -
  from handleProcessCampaign_queue [OF state21_facts(1,2), of envHalf 0]
  obtain new where n:
    "campaignQueue (snd (handleProcessCampaign envHalf 1 0 state21)) = campaignQueue state21 @ new"
    "\<forall>k. 0 < k \<and> k < length (replicate 21 item1) \<longrightarrow>
        delayAt new (Suc k) = delayAt new k
          + advance (getSettings state21 campaign21) (e_random envHalf) k"
    by blast
  from n(1) have e: "campaignQueue (snd (handleProcessCampaign envHalf 1 0 state21)) = new"
    by (simp only: state21_facts(5) append_Nil)
  have "(0::nat) < 19 \<and> 19 < length (replicate 21 item1)" by simp
  with n(2) have "delayAt new (Suc 19)
      = delayAt new 19 + advance (getSettings state21 campaign21) (e_random envHalf) 19"
    by blast
  moreover have "advance (getSettings state21 campaign21) (e_random envHalf) 19 = 10000"
    by (simp add: state21_facts(3) advance_def parseToMilliseconds_def orElse_def
          randomValue_def envHalf_def env1_def)
  ultimately have "delayAt new 20 - delayAt new 19 = 10000" by simp
  with e show ?thesis by simp
qed

text \<open>
  Claim C4, as the code has it. For a campaign with a proper recipient list the
  orchestrator appends one PrepareContact job per recipient, in the order of the list,
  with \<open>removeOnComplete\<close> and carrying the running delay, which starts at the job's
  delay. After the recipient at 1-based index \<open>k\<close> the delay advances by
  \<open>greaterInterval\<close> seconds, or by 60 seconds when \<open>greaterInterval\<close> is 0, if \<open>k\<close>
  is a multiple of \<open>longerIntervalAfter\<close>; otherwise by \<open>fixedMessageInterval\<close>
  seconds if that is nonzero; otherwise by the whole number of seconds
  \<open>floor (u * m)\<close>, where \<open>u\<close> is the draw of \<open>Math.random\<close> and \<open>m\<close> is
  \<open>randomMessageInterval\<close>, or 20 when that is 0. For a draw in [0, 1) and a positive
  \<open>randomMessageInterval\<close> this number lies in [0, randomMessageInterval). A company
  without setting rows gets the defaults 20, 20, 60, 0.
\<close>

theorem handleProcessCampaign_fan_out:
  assumes "getCampaign s i = Some c" and "c_contacts c = Some cs" and "st = getSettings s c"
  shows "\<exists>new. campaignQueue (snd (handleProcessCampaign env i delay s)) = campaignQueue s @ new
           \<and> length new = length cs
           \<and> (\<forall>k. 0 < k \<and> k \<le> length cs \<longrightarrow>
                  j_data (new ! (k - 1)) =
                    PrepareContact (cli_id (cs ! (k - 1))) (c_id c) (delayAt new k)
                  \<and> j_removeOnComplete (new ! (k - 1)) \<and> j_delay (new ! (k - 1)) = None)
           \<and> (cs \<noteq> [] \<longrightarrow> delayAt new 1 = delay)
           \<and> (\<forall>k. 0 < k \<and> k < length cs \<longrightarrow>
                  delayAt new (Suc k) - delayAt new k =
                    1000 * (if longerIntervalAfter st dvd int k
                            then (if greaterInterval st = 0 then 60 else greaterInterval st)
                            else if fixedMessageInterval st \<noteq> 0 then fixedMessageInterval st
                            else \<lfloor>e_random env k *
                                   real_of_int (if randomMessageInterval st = 0 then 20
                                                else randomMessageInterval st)\<rfloor>))
           \<and> (\<forall>k. 0 \<le> e_random env k \<and> e_random env k < 1 \<and> 0 < randomMessageInterval st \<longrightarrow>
                  0 \<le> \<lfloor>e_random env k * real_of_int (randomMessageInterval st)\<rfloor>
                  \<and> \<lfloor>e_random env k * real_of_int (randomMessageInterval st)\<rfloor>
                       < randomMessageInterval st)
           \<and> ((\<forall>x \<in> set (settings s). st_companyId x \<noteq> c_companyId c) \<longrightarrow>
                  st = \<lparr>randomMessageInterval = 20, longerIntervalAfter = 20,
                        greaterInterval = 60, fixedMessageInterval = 0\<rparr>)"
proof -
  from handleProcessCampaign_queue [OF assms(1,2), of env delay]
  obtain new where n:
    "campaignQueue (snd (handleProcessCampaign env i delay s)) = campaignQueue s @ new"
    "length new = length cs"
    "\<forall>k. 0 < k \<and> k \<le> length cs \<longrightarrow>
        j_data (new ! (k - 1)) =
          PrepareContact (cli_id (cs ! (k - 1))) (c_id c) (delayAt new k)
        \<and> j_removeOnComplete (new ! (k - 1)) \<and> j_delay (new ! (k - 1)) = None"
    "cs \<noteq> [] \<longrightarrow> delayAt new 1 = delay"
    "\<forall>k. 0 < k \<and> k < length cs \<longrightarrow>
        delayAt new (Suc k) = delayAt new k + advance (getSettings s c) (e_random env) k"
    by blast
  have adv: "\<forall>k. 0 < k \<and> k < length cs \<longrightarrow>
               delayAt new (Suc k) - delayAt new k =
                 1000 * (if longerIntervalAfter st dvd int k
                         then (if greaterInterval st = 0 then 60 else greaterInterval st)
                         else if fixedMessageInterval st \<noteq> 0 then fixedMessageInterval st
                         else \<lfloor>e_random env k *
                                real_of_int (if randomMessageInterval st = 0 then 20
                                             else randomMessageInterval st)\<rfloor>)"
  proof (intro allI impI)
    fix k assume k: "0 < k \<and> k < length cs"
    with n(5) have "delayAt new (Suc k) - delayAt new k = advance st (e_random env) k"
      by (simp add: assms(3))
    with k show "delayAt new (Suc k) - delayAt new k =
                 1000 * (if longerIntervalAfter st dvd int k
                         then (if greaterInterval st = 0 then 60 else greaterInterval st)
                         else if fixedMessageInterval st \<noteq> 0 then fixedMessageInterval st
                         else \<lfloor>e_random env k *
                                real_of_int (if randomMessageInterval st = 0 then 20
                                             else randomMessageInterval st)\<rfloor>)"
      by (simp only: advance_explicit)
  qed
  have rng: "\<forall>k. 0 \<le> e_random env k \<and> e_random env k < 1 \<and> 0 < randomMessageInterval st \<longrightarrow>
                  0 \<le> \<lfloor>e_random env k * real_of_int (randomMessageInterval st)\<rfloor>
                  \<and> \<lfloor>e_random env k * real_of_int (randomMessageInterval st)\<rfloor>
                       < randomMessageInterval st"
    using floor_draw_range by blast
  have dflt: "(\<forall>x \<in> set (settings s). st_companyId x \<noteq> c_companyId c) \<longrightarrow>
                  st = \<lparr>randomMessageInterval = 20, longerIntervalAfter = 20,
                        greaterInterval = 60, fixedMessageInterval = 0\<rparr>"
    using getSettings_defaults [of s c] by (simp add: assms(3) campaignDelayDefaults_def)
  from n(1-4) adv rng dflt show ?thesis by blast
qed


theorem handleProcessCampaign_fan_out_witness:
  "getCampaign stateNoCooldown 1 = Some campaign2
   \<and> c_contacts campaign2 = Some [item1, item1]
   \<and> map j_data (campaignQueue (snd (handleProcessCampaign env1 1 5 stateNoCooldown)))
       = [PrepareContact 1 1 5, PrepareContact 1 1 60005]"
proof -
  from handleProcessCampaign_fan_out [OF stateNoCooldown_facts(1,2) refl, of env1 5]
  obtain new where n:
    "campaignQueue (snd (handleProcessCampaign env1 1 5 stateNoCooldown))
       = campaignQueue stateNoCooldown @ new"
    "length new = length [item1, item1]"
    "\<forall>k. 0 < k \<and> k \<le> length [item1, item1] \<longrightarrow>
        j_data (new ! (k - 1)) =
          PrepareContact (cli_id ([item1, item1] ! (k - 1))) (c_id campaign2) (delayAt new k)
        \<and> j_removeOnComplete (new ! (k - 1)) \<and> j_delay (new ! (k - 1)) = None"
    "[item1, item1] \<noteq> [] \<longrightarrow> delayAt new 1 = 5"
    "\<forall>k. 0 < k \<and> k < length [item1, item1] \<longrightarrow>
        delayAt new (Suc k) - delayAt new k =
          1000 * (if longerIntervalAfter (getSettings stateNoCooldown campaign2) dvd int k
                  then (if greaterInterval (getSettings stateNoCooldown campaign2) = 0 then 60
                        else greaterInterval (getSettings stateNoCooldown campaign2))
                  else if fixedMessageInterval (getSettings stateNoCooldown campaign2) \<noteq> 0
                  then fixedMessageInterval (getSettings stateNoCooldown campaign2)
                  else \<lfloor>e_random env1 k *
                         real_of_int (if randomMessageInterval (getSettings stateNoCooldown campaign2) = 0
                                      then 20
                                      else randomMessageInterval (getSettings stateNoCooldown campaign2))\<rfloor>)"
    by blast
  from n(1) have e: "campaignQueue (snd (handleProcessCampaign env1 1 5 stateNoCooldown)) = new"
    by (simp only: stateNoCooldown_facts(4) append_Nil)
  from n(4) have d1: "delayAt new 1 = 5" by simp
  have "(0::nat) < 1 \<and> 1 < length [item1, item1]" by simp
  with n(5) have "delayAt new (Suc 1) - delayAt new 1 =
          1000 * (if longerIntervalAfter (getSettings stateNoCooldown campaign2) dvd int 1
                  then (if greaterInterval (getSettings stateNoCooldown campaign2) = 0 then 60
                        else greaterInterval (getSettings stateNoCooldown campaign2))
                  else if fixedMessageInterval (getSettings stateNoCooldown campaign2) \<noteq> 0
                  then fixedMessageInterval (getSettings stateNoCooldown campaign2)
                  else \<lfloor>e_random env1 1 *
                         real_of_int (if randomMessageInterval (getSettings stateNoCooldown campaign2) = 0
                                      then 20
                                      else randomMessageInterval (getSettings stateNoCooldown campaign2))\<rfloor>)"
    by blast
  with d1 have d2: "delayAt new 2 = 60005"
    by (simp add: stateNoCooldown_facts(3) numeral_2_eq_2)
  have "(0::nat) < 1 \<and> 1 \<le> length [item1, item1]" by simp
  with n(3) have j1: "j_data (new ! (1 - 1)) =
          PrepareContact (cli_id ([item1, item1] ! (1 - 1))) (c_id campaign2) (delayAt new 1)"
    by blast
  have "(0::nat) < 2 \<and> 2 \<le> length [item1, item1]" by simp
  with n(3) have j2: "j_data (new ! (2 - 1)) =
          PrepareContact (cli_id ([item1, item1] ! (2 - 1))) (c_id campaign2) (delayAt new 2)"
    by blast
  from n(2) obtain a b where ab: "new = [a, b]"
    by (cases new; cases "tl new"; cases "tl (tl new)") auto
  with j1 j2 d1 d2 have "map j_data new = [PrepareContact 1 1 5, PrepareContact 1 1 60005]"
    by (simp add: item1_def campaign2_def campaign1_def)
  with e stateNoCooldown_facts(1,2) show ?thesis by (simp only: simp_thms)
qed


text \<open>
  Claim C4 as stated fails for \<open>greaterInterval = 0\<close>: with
  \<open>longerIntervalAfter = 1\<close> the delay advances by 60000 ms after the first
  recipient, not by \<open>greaterInterval\<close> seconds.
\<close>

theorem greaterInterval_zero_counterexample:
  "delayAt (campaignQueue (snd (handleProcessCampaign env1 1 5 stateNoCooldown))) 2
     - delayAt (campaignQueue (snd (handleProcessCampaign env1 1 5 stateNoCooldown))) 1
   \<noteq> 1000 * greaterInterval (getSettings stateNoCooldown campaign2)"
  by (simp add: stateNoCooldown_facts(3))
     (simp add: delayAt_def prepareDelay_def stateNoCooldown_def campaign2_def example_defs
        handler_defs applySetting_def Let_def)

section \<open>Campaign Verifier\<close>

lemma verifyCampaignsLoop_jobs:
  "\<exists>new. verifyCampaignsLoop clock k rows q = q @ new
      \<and> length new = length rows
      \<and> (\<forall>n < length rows.
            j_data (new ! n) = ProcessCampaign (fst (rows ! n)) (snd (rows ! n) - clock (k + n))
            \<and> j_removeOnComplete (new ! n) \<and> j_delay (new ! n) = None)"
proof (induction rows arbitrary: k q)
  case Nil
  then show ?case by simp
next
  case (Cons r rows)
  obtain i t where r: "r = (i, t)" by (cases r)
  let ?j = "\<lparr>j_id = Suc (length q), j_data = ProcessCampaign i (t - clock k),
              j_delay = None, j_removeOnComplete = True\<rparr>"
  from Cons.IH [of "Suc k" "q @ [?j]"]
  obtain new where n: "verifyCampaignsLoop clock (Suc k) rows (q @ [?j]) = (q @ [?j]) @ new"
    "length new = length rows"
    "\<forall>n < length rows.
        j_data (new ! n) = ProcessCampaign (fst (rows ! n)) (snd (rows ! n) - clock (Suc k + n))
        \<and> j_removeOnComplete (new ! n) \<and> j_delay (new ! n) = None"
    by blast
  have e: "verifyCampaignsLoop clock k (r # rows) q = q @ (?j # new)"
    using n(1) by (simp add: r queue_add_def Let_def)
  have l: "length (?j # new) = length (r # rows)" using n(2) by simp
  have p: "\<forall>n < length (r # rows).
        j_data ((?j # new) ! n) =
          ProcessCampaign (fst ((r # rows) ! n)) (snd ((r # rows) ! n) - clock (k + n))
        \<and> j_removeOnComplete ((?j # new) ! n) \<and> j_delay ((?j # new) ! n) = None"
  proof (intro allI impI)
    fix m assume m: "m < length (r # rows)"
    show "j_data ((?j # new) ! m) =
          ProcessCampaign (fst ((r # rows) ! m)) (snd ((r # rows) ! m) - clock (k + m))
        \<and> j_removeOnComplete ((?j # new) ! m) \<and> j_delay ((?j # new) ! m) = None"
    proof (cases m)
      case 0
      then show ?thesis by (simp add: r)
    next
      case (Suc m')
      with m n(3) show ?thesis by simp
    qed
  qed
  from e l p show ?case by blast
qed

lemma dueCampaigns_iff:
  "(i, t) \<in> set (dueCampaigns dbnow s) \<longleftrightarrow>
     (\<exists>c \<in> set (campaigns s). c_id c = i \<and> c_scheduledAt c = Some t
         \<and> dbnow \<le> t \<and> t \<le> dbnow + 3600000 \<and> c_status c = PROGRAMADA)"
proof
  assume "(i, t) \<in> set (dueCampaigns dbnow s)"
  then obtain c where c: "c \<in> set (campaigns s)"
    "(i, t) \<in> set (case c_scheduledAt c of
                       None \<Rightarrow> []
                     | Some t \<Rightarrow> (if dbnow \<le> t \<and> t \<le> dbnow + 3600000 \<and> c_status c = PROGRAMADA
                                 then [(c_id c, t)] else []))"
    by (auto simp: dueCampaigns_def)
  from c(2) have "c_id c = i \<and> c_scheduledAt c = Some t
         \<and> dbnow \<le> t \<and> t \<le> dbnow + 3600000 \<and> c_status c = PROGRAMADA"
    by (auto split: option.splits if_splits)
  with c(1) show "\<exists>c \<in> set (campaigns s). c_id c = i \<and> c_scheduledAt c = Some t
         \<and> dbnow \<le> t \<and> t \<le> dbnow + 3600000 \<and> c_status c = PROGRAMADA"
    by blast
next
  assume "\<exists>c \<in> set (campaigns s). c_id c = i \<and> c_scheduledAt c = Some t
         \<and> dbnow \<le> t \<and> t \<le> dbnow + 3600000 \<and> c_status c = PROGRAMADA"
  then obtain c where c: "c \<in> set (campaigns s)" "c_id c = i" "c_scheduledAt c = Some t"
    "dbnow \<le> t" "t \<le> dbnow + 3600000" "c_status c = PROGRAMADA"
    by blast
  then show "(i, t) \<in> set (dueCampaigns dbnow s)"
    by (auto simp: dueCampaigns_def intro!: bexI [of _ c])
qed

text \<open>
  Claim C5, as the code has it. The Campaign Verifier adds exactly one ProcessCampaign
  job, with \<open>removeOnComplete\<close>, for every campaign the query selects (status
  PROGRAMADA, \<open>scheduledAt\<close> between the database's \<open>now()\<close> and one hour later), in
  the order of the rows. The job carries the campaign's id and
  \<open>delay = scheduledAt - now\<close>, where \<open>now\<close> is the worker's clock read in the
  iteration for that row. The delay is not clamped: it is non-negative exactly when
  that reading is not later than \<open>scheduledAt\<close>.
\<close>

theorem handleVerifyCampaigns_enqueue:
  "\<exists>new. campaignQueue (handleVerifyCampaigns dbnow clock s) = campaignQueue s @ new
      \<and> length new = length (dueCampaigns dbnow s)
      \<and> (\<forall>n < length (dueCampaigns dbnow s).
            j_data (new ! n) =
              ProcessCampaign (fst (dueCampaigns dbnow s ! n))
                (snd (dueCampaigns dbnow s ! n) - clock n)
            \<and> j_removeOnComplete (new ! n)
            \<and> (0 \<le> snd (dueCampaigns dbnow s ! n) - clock n
                 \<longleftrightarrow> clock n \<le> snd (dueCampaigns dbnow s ! n)))
      \<and> (\<forall>i t. (i, t) \<in> set (dueCampaigns dbnow s) \<longleftrightarrow>
            (\<exists>c \<in> set (campaigns s). c_id c = i \<and> c_scheduledAt c = Some t
                \<and> dbnow \<le> t \<and> t \<le> dbnow + 3600000 \<and> c_status c = PROGRAMADA))"
proof -
  from verifyCampaignsLoop_jobs [of clock 0 "dueCampaigns dbnow s" "campaignQueue s"]
  obtain new where n:
    "verifyCampaignsLoop clock 0 (dueCampaigns dbnow s) (campaignQueue s) = campaignQueue s @ new"
    "length new = length (dueCampaigns dbnow s)"
    "\<forall>n < length (dueCampaigns dbnow s).
        j_data (new ! n) =
          ProcessCampaign (fst (dueCampaigns dbnow s ! n))
            (snd (dueCampaigns dbnow s ! n) - clock (0 + n))
        \<and> j_removeOnComplete (new ! n) \<and> j_delay (new ! n) = None"
    by blast
  from n(1) have a: "campaignQueue (handleVerifyCampaigns dbnow clock s) = campaignQueue s @ new"
    by (simp add: handleVerifyCampaigns_def)
  from n(3) have b: "\<forall>n < length (dueCampaigns dbnow s).
            j_data (new ! n) =
              ProcessCampaign (fst (dueCampaigns dbnow s ! n))
                (snd (dueCampaigns dbnow s ! n) - clock n)
            \<and> j_removeOnComplete (new ! n)
            \<and> (0 \<le> snd (dueCampaigns dbnow s ! n) - clock n
                 \<longleftrightarrow> clock n \<le> snd (dueCampaigns dbnow s ! n))"
    by simp
  from a n(2) b dueCampaigns_iff show ?thesis by blast
qed

theorem handleVerifyCampaigns_enqueue_witness:
  "dueCampaigns 0 state1 = [(1, 60000)]
   \<and> map j_data (campaignQueue (handleVerifyCampaigns 0 clockEarly state1))
       = [ProcessCampaign 1 59995]
   \<and> map j_removeOnComplete (campaignQueue (handleVerifyCampaigns 0 clockEarly state1)) = [True]"
proof -
  have d: "dueCampaigns 0 state1 = [(1, 60000)]"
    by (simp add: dueCampaigns_def state1_def campaign1_def)
  have q: "campaignQueue state1 = []" by (simp add: state1_def)
  from handleVerifyCampaigns_enqueue [of 0 clockEarly state1]
  obtain new where n:
    "campaignQueue (handleVerifyCampaigns 0 clockEarly state1) = campaignQueue state1 @ new"
    "length new = length (dueCampaigns 0 state1)"
    "\<forall>n < length (dueCampaigns 0 state1).
        j_data (new ! n) =
          ProcessCampaign (fst (dueCampaigns 0 state1 ! n))
            (snd (dueCampaigns 0 state1 ! n) - clockEarly n)
        \<and> j_removeOnComplete (new ! n)
        \<and> (0 \<le> snd (dueCampaigns 0 state1 ! n) - clockEarly n
             \<longleftrightarrow> clockEarly n \<le> snd (dueCampaigns 0 state1 ! n))"
    by blast
  from n(2) d obtain a where a: "new = [a]" by (cases new) auto
  from n(3) d have "j_data (new ! 0) = ProcessCampaign 1 (60000 - clockEarly 0)
      \<and> j_removeOnComplete (new ! 0)"
    by simp
  with a have "map j_data new = [ProcessCampaign 1 59995] \<and> map j_removeOnComplete new = [True]"
    by (simp add: clockEarly_def)
  with n(1) q d show ?thesis by simp
qed

text \<open>
  Claim C5 as stated fails: a campaign scheduled at the instant the query runs is
  selected, and the worker's clock, read 4 ms later, gives the delay -4, not 0.
\<close>

theorem negative_delay_counterexample:
  "map j_data (campaignQueue (handleVerifyCampaigns 60000 clockLate state1))
     = [ProcessCampaign 1 (- 4)]"
  by (simp add: handleVerifyCampaigns_def dueCampaigns_def state1_def campaign1_def
        queue_add_def clockLate_def Let_def)

section \<open>Schedule Verifier\<close>

lemma floorSecond_le: "floorSecond t \<le> t"
  by (simp add: floorSecond_def)

lemma floorSecond_mono: "a \<le> b \<Longrightarrow> floorSecond a \<le> floorSecond b"
  by (simp add: floorSecond_def zdiv_mono1)

lemma floorSecond_add: "floorSecond (t + 30000) = floorSecond t + 30000"
proof -
  have "t + 30000 = t + 30 * 1000" by simp
  then have "(t + 30000) div 1000 = t div 1000 + 30"
    by (simp only: div_mult_self1 div_mult_self2 div_mult_self3 div_mult_self4)
  then show ?thesis by (simp add: floorSecond_def)
qed

lemma promote_schedules:
  "schedules (promote rows s) =
     map (\<lambda>r. if sc_id r \<in> sc_id ` set rows then r\<lparr>sc_status := AGENDADA\<rparr> else r) (schedules s)"
  by (induction rows arbitrary: s) (auto simp: Let_def)

lemma promote_queue:
  "sendScheduledMessages (promote rows s) =
     sendScheduledMessages s
       @ map (\<lambda>x. \<lparr>sj_schedule = x\<lparr>sc_status := AGENDADA\<rparr>, sj_delay = 40000\<rparr>) rows"
  by (induction rows arbitrary: s) (auto simp: Let_def)

lemma handleVerifySchedules_promote:
  "handleVerifySchedules now1 now2 s = promote (dueSchedules now1 now2 s) s"
  by (cases "dueSchedules now1 now2 s") (simp_all add: handleVerifySchedules_def Let_def)

lemma filter_key_single:
  "distinct (map f xs) \<Longrightarrow> x \<in> set xs \<Longrightarrow> filter (\<lambda>y. f y = f x) xs = [x]"
proof (induction xs)
  case Nil
  then show ?case by simp
next
  case (Cons a xs)
  show ?case
  proof (cases "a = x")
    case True
    with Cons.prems have "f x \<notin> f ` set xs" by simp
    then have "\<forall>y \<in> set xs. f y \<noteq> f x" by (metis imageI)
    then have "filter (\<lambda>y. f y = f x) xs = []" by (simp add: filter_empty_conv)
    with True show ?thesis by simp
  next
    case False
    with Cons.prems have x: "x \<in> set xs" by simp
    with Cons.prems have "f a \<noteq> f x" by auto
    with Cons.IH x Cons.prems show ?thesis by simp
  qed
qed

lemma schedule1_facts:
  "schedule1 \<in> set (schedules (state1\<lparr>schedules := [schedule1]\<rparr>))"
  "distinct (map sc_id (schedules (state1\<lparr>schedules := [schedule1]\<rparr>)))"
  "sc_status schedule1 = PENDENTE" "sc_sentAt schedule1 = None"
  "floorSecond 500 \<le> sc_sendAt schedule1" "sc_sendAt schedule1 \<le> floorSecond 500 + 30000"
  "(500::int) \<le> 500"
  by (simp_all add: schedule1_def floorSecond_def)

text \<open>
  Claim C6, as the code has it. Let the schedule table have distinct ids, and let
  \<open>now1\<close> and \<open>now2\<close> be the two clock readings of one run of the Schedule Verifier,
  the second not before the first. The query compares \<open>sendAt\<close> with the readings cut
  down to the whole second. Every schedule with status PENDENTE, \<open>sentAt\<close> null and
  \<open>sendAt\<close> within [t, t + 30 s], where \<open>t\<close> is \<open>now1\<close> cut down to the second, has
  its row set to AGENDADA by that run, and the run adds to the scheduled-send queue
  exactly one SendMessage job for it, with delay 40000 ms and the promoted schedule as
  payload. A schedule that is not PENDENTE, has \<open>sentAt\<close> set, or has \<open>sendAt\<close>
  outside the window of the query keeps its row and gets no job.
\<close>

theorem handleVerifySchedules_promotes:
  assumes "x \<in> set (schedules s)" and "distinct (map sc_id (schedules s))"
    and "sc_status x = PENDENTE" and "sc_sentAt x = None"
    and "floorSecond now1 \<le> sc_sendAt x" and "sc_sendAt x \<le> floorSecond now1 + 30000"
    and "now1 \<le> now2"
  shows "x\<lparr>sc_status := AGENDADA\<rparr> \<in> set (schedules (handleVerifySchedules now1 now2 s))
         \<and> (\<forall>y \<in> set (schedules (handleVerifySchedules now1 now2 s)).
               sc_id y = sc_id x \<longrightarrow> y = x\<lparr>sc_status := AGENDADA\<rparr>)
         \<and> (\<exists>new. sendScheduledMessages (handleVerifySchedules now1 now2 s)
                      = sendScheduledMessages s @ new
               \<and> filter (\<lambda>j. sc_id (sj_schedule j) = sc_id x) new
                    = [\<lparr>sj_schedule = x\<lparr>sc_status := AGENDADA\<rparr>, sj_delay = 40000\<rparr>]
               \<and> (\<forall>y \<in> set (schedules s).
                     \<not> (sc_status y = PENDENTE \<and> sc_sentAt y = None
                        \<and> floorSecond now1 \<le> sc_sendAt y
                        \<and> sc_sendAt y \<le> floorSecond now2 + 30000) \<longrightarrow>
                     y \<in> set (schedules (handleVerifySchedules now1 now2 s))
                     \<and> filter (\<lambda>j. sc_id (sj_schedule j) = sc_id y) new = []))"
proof -
  let ?rows = "dueSchedules now1 now2 s"
  let ?s' = "handleVerifySchedules now1 now2 s"
  let ?job = "\<lambda>x. \<lparr>sj_schedule = x\<lparr>sc_status := AGENDADA\<rparr>, sj_delay = 40000\<rparr>"
  let ?g = "\<lambda>r. if sc_id r \<in> sc_id ` set ?rows then r\<lparr>sc_status := AGENDADA\<rparr> else r"
  from floorSecond_mono [OF assms(7)] assms(6)
  have "sc_sendAt x \<le> floorSecond (now2 + 30000)" by (simp add: floorSecond_add)
  with assms have xr: "x \<in> set ?rows" by (simp add: dueSchedules_def)
  have h: "?s' = promote ?rows s" by (rule handleVerifySchedules_promote)
  have sch: "schedules ?s' = map ?g (schedules s)"
    by (simp only: h promote_schedules)
  have que: "sendScheduledMessages ?s' = sendScheduledMessages s @ map ?job ?rows"
    by (simp only: h promote_queue)
  from xr have "sc_id x \<in> sc_id ` set ?rows" by (rule imageI)
  then have gx: "?g x = x\<lparr>sc_status := AGENDADA\<rparr>" by simp
  from assms(1) have "?g x \<in> ?g ` set (schedules s)" by (rule imageI)
  then have "?g x \<in> set (schedules ?s')" by (simp only: sch set_map)
  with gx have a: "x\<lparr>sc_status := AGENDADA\<rparr> \<in> set (schedules ?s')" by simp
  have b: "\<forall>y \<in> set (schedules ?s'). sc_id y = sc_id x \<longrightarrow> y = x\<lparr>sc_status := AGENDADA\<rparr>"
  proof (intro ballI impI)
    fix y assume y: "y \<in> set (schedules ?s')" "sc_id y = sc_id x"
    from y(1) sch obtain r where r: "r \<in> set (schedules s)" "y = ?g r" by auto
    from r(2) y(2) have "sc_id r = sc_id x" by (auto split: if_splits)
    with r(1) assms(1,2) have "r = x" by (meson distinct_map inj_onD)
    with r(2) xr show "y = x\<lparr>sc_status := AGENDADA\<rparr>" by auto
  qed
  from assms(2) have "distinct (map sc_id ?rows)"
    by (simp add: dueSchedules_def distinct_map_filter)
  from filter_key_single [OF this xr]
  have f: "filter (\<lambda>y. sc_id y = sc_id x) ?rows = [x]" .
  have fm: "filter (\<lambda>j. sc_id (sj_schedule j) = v) (map ?job ?rows)
      = map ?job (filter (\<lambda>y. sc_id y = v) ?rows)" for v
    by (simp add: filter_map comp_def)
  from f fm [of "sc_id x"]
  have c: "filter (\<lambda>j. sc_id (sj_schedule j) = sc_id x) (map ?job ?rows) = [?job x]"
    by simp
  have d: "\<forall>y \<in> set (schedules s).
             \<not> (sc_status y = PENDENTE \<and> sc_sentAt y = None
                \<and> floorSecond now1 \<le> sc_sendAt y
                \<and> sc_sendAt y \<le> floorSecond now2 + 30000) \<longrightarrow>
             y \<in> set (schedules ?s')
             \<and> filter (\<lambda>j. sc_id (sj_schedule j) = sc_id y) (map ?job ?rows) = []"
  proof (intro ballI impI)
    fix y
    assume y: "y \<in> set (schedules s)"
      and n: "\<not> (sc_status y = PENDENTE \<and> sc_sentAt y = None
                \<and> floorSecond now1 \<le> sc_sendAt y
                \<and> sc_sendAt y \<le> floorSecond now2 + 30000)"
    from n have yr: "y \<notin> set ?rows" by (simp add: dueSchedules_def floorSecond_add)
    have nid: "\<forall>r \<in> set ?rows. sc_id r \<noteq> sc_id y"
    proof
      fix r assume r: "r \<in> set ?rows"
      then have "r \<in> set (schedules s)" by (simp add: dueSchedules_def)
      with assms(2) y have "sc_id r = sc_id y \<longrightarrow> r = y" by (meson distinct_map inj_onD)
      with r yr show "sc_id r \<noteq> sc_id y" by blast
    qed
    then have "sc_id y \<notin> sc_id ` set ?rows" by auto
    then have "?g y = y" by simp
    moreover from y have "?g y \<in> ?g ` set (schedules s)" by (rule imageI)
    ultimately have m: "y \<in> set (schedules ?s')" by (simp only: sch set_map)
    from nid have "filter (\<lambda>r. sc_id r = sc_id y) ?rows = []" by (simp add: filter_empty_conv)
    with fm [of "sc_id y"]
    have "filter (\<lambda>j. sc_id (sj_schedule j) = sc_id y) (map ?job ?rows) = []" by simp
    with m show "y \<in> set (schedules ?s')
             \<and> filter (\<lambda>j. sc_id (sj_schedule j) = sc_id y) (map ?job ?rows) = []"
      by simp
  qed
  from que c d have "\<exists>new. sendScheduledMessages ?s' = sendScheduledMessages s @ new
               \<and> filter (\<lambda>j. sc_id (sj_schedule j) = sc_id x) new = [?job x]
               \<and> (\<forall>y \<in> set (schedules s).
                     \<not> (sc_status y = PENDENTE \<and> sc_sentAt y = None
                        \<and> floorSecond now1 \<le> sc_sendAt y
                        \<and> sc_sendAt y \<le> floorSecond now2 + 30000) \<longrightarrow>
                     y \<in> set (schedules ?s')
                     \<and> filter (\<lambda>j. sc_id (sj_schedule j) = sc_id y) new = [])"
    by (intro exI [of _ "map ?job ?rows"] conjI)
  with a b show ?thesis by (intro conjI)
qed

theorem handleVerifySchedules_promotes_witness:
  "schedule1 \<in> set (schedules (state1\<lparr>schedules := [schedule1]\<rparr>))
   \<and> distinct (map sc_id (schedules (state1\<lparr>schedules := [schedule1]\<rparr>)))
   \<and> sc_status schedule1 = PENDENTE \<and> sc_sentAt schedule1 = None
   \<and> floorSecond 500 \<le> sc_sendAt schedule1 \<and> sc_sendAt schedule1 \<le> floorSecond 500 + 30000
   \<and> schedule1\<lparr>sc_status := AGENDADA\<rparr>
        \<in> set (schedules (handleVerifySchedules 500 500 (state1\<lparr>schedules := [schedule1]\<rparr>)))
   \<and> sendScheduledMessages (handleVerifySchedules 500 500 (state1\<lparr>schedules := [schedule1]\<rparr>))
        = [\<lparr>sj_schedule = schedule1\<lparr>sc_status := AGENDADA\<rparr>, sj_delay = 40000\<rparr>]"
proof -
  from handleVerifySchedules_promotes [OF schedule1_facts]
  have "schedule1\<lparr>sc_status := AGENDADA\<rparr>
        \<in> set (schedules (handleVerifySchedules 500 500 (state1\<lparr>schedules := [schedule1]\<rparr>)))"
    by blast
  moreover have "sendScheduledMessages (handleVerifySchedules 500 500 (state1\<lparr>schedules := [schedule1]\<rparr>))
        = [\<lparr>sj_schedule = schedule1\<lparr>sc_status := AGENDADA\<rparr>, sj_delay = 40000\<rparr>]"
    by (simp add: handleVerifySchedules_def dueSchedules_def floorSecond_def schedule1_def
          state1_def Let_def)
  ultimately show ?thesis using schedule1_facts by simp
qed

text \<open>
  Claim C6 as stated fails: with the clock at 0.5 s, a PENDENTE schedule whose
  \<open>sendAt\<close> is 30.4 s lies within [now, now + 30 s], but the query's upper bound is
  30.5 s cut down to 30 s, so the run leaves the schedule PENDENTE and adds no job.
\<close>

theorem subsecond_window_counterexample:
  "sc_status scheduleEdge = PENDENTE \<and> sc_sentAt scheduleEdge = None
   \<and> 500 \<le> sc_sendAt scheduleEdge \<and> sc_sendAt scheduleEdge \<le> 500 + 30000
   \<and> map sc_status (schedules (handleVerifySchedules 500 500 stateEdge)) = [PENDENTE]
   \<and> sendScheduledMessages (handleVerifySchedules 500 500 stateEdge) = []"
  by (simp add: handleVerifySchedules_def dueSchedules_def floorSecond_def scheduleEdge_def
        stateEdge_def schedule1_def state1_def Let_def)

section \<open>Scheduled Message Handler\<close>

lemma scheduleUpdate_None: "scheduleUpdate f None s = s"
  by (simp add: scheduleUpdate_def)

lemma scheduleUpdate_Some:
  "schedules (scheduleUpdate f (Some r) s)
     = map (\<lambda>x. if sc_id x = sc_id r then f x else x) (schedules s)"
  by (simp add: scheduleUpdate_def)

lemma scheduleUpdate_sentScheduled:
  "sentScheduled (scheduleUpdate f r s) = sentScheduled s"
  by (simp add: scheduleUpdate_def split: option.splits)

lemma sendPath_schedules: "sendPath env schedule s = Inr s1 \<Longrightarrow> schedules s1 = schedules s"
  by (auto simp: sendPath_def split: sum.splits option.splits)

text \<open>
  Claim C8, as the code has it. \<open>refetched\<close> is the record the defensive re-fetch
  yields: none when the re-fetch rejects or finds no row. When the send path fails,
  the handler re-raises that error, and the re-fetched record, if there is one, gets
  status ERRO. When the send path succeeds, the handler returns normally and the
  re-fetched record, if there is one, gets status ENVIADA and the sent timestamp. With
  no re-fetched record the schedule table is left as it was in both cases. A rejected
  re-fetch does not abort the send: it goes to the number of the contact embedded in
  the payload.
\<close>

theorem handleSendScheduledMessage_outcome:
  "(\<forall>e. sendPath env schedule s = Inl e \<longrightarrow>
       fst (handleSendScheduledMessage env schedule s) = Some e
       \<and> sentScheduled (snd (handleSendScheduledMessage env schedule s)) = sentScheduled s
       \<and> (\<forall>r. refetched env schedule s = Some r \<longrightarrow>
              (\<forall>y \<in> set (schedules (snd (handleSendScheduledMessage env schedule s))).
                  sc_id y = sc_id r \<longrightarrow> sc_status y = ERRO))
       \<and> (refetched env schedule s = None \<longrightarrow>
              schedules (snd (handleSendScheduledMessage env schedule s)) = schedules s))
   \<and> (\<forall>s1. sendPath env schedule s = Inr s1 \<longrightarrow>
       fst (handleSendScheduledMessage env schedule s) = None
       \<and> (\<forall>r. refetched env schedule s = Some r \<longrightarrow>
              (\<forall>y \<in> set (schedules (snd (handleSendScheduledMessage env schedule s))).
                  sc_id y = sc_id r \<longrightarrow>
                  sc_status y = ENVIADA \<and> sc_sentAt y = Some (floorMinute (e_now env))))
       \<and> (refetched env schedule s = None \<longrightarrow>
              schedules (snd (handleSendScheduledMessage env schedule s)) = schedules s))
   \<and> (\<forall>c w. e_findByPkRejects env \<and> sc_contact schedule = Some c
          \<and> e_GetDefaultWhatsApp env (sc_companyId schedule) = Inr w
          \<and> e_SendMessage env w (ct_number c) (sc_body schedule) = Inr () \<longrightarrow>
       fst (handleSendScheduledMessage env schedule s) = None
       \<and> sentScheduled (snd (handleSendScheduledMessage env schedule s))
            = sentScheduled s @ [(ct_number c, sc_body schedule)])"
proof -
  let ?res = "handleSendScheduledMessage env schedule s"
  let ?rec = "refetched env schedule s"
  have a: "fst ?res = Some e
       \<and> sentScheduled (snd ?res) = sentScheduled s
       \<and> (\<forall>r. ?rec = Some r \<longrightarrow>
              (\<forall>y \<in> set (schedules (snd ?res)). sc_id y = sc_id r \<longrightarrow> sc_status y = ERRO))
       \<and> (?rec = None \<longrightarrow> schedules (snd ?res) = schedules s)"
    if "sendPath env schedule s = Inl e" for e
  proof -
    from that have r: "?res = (Some e, scheduleUpdate (\<lambda>r. r\<lparr>sc_status := ERRO\<rparr>) ?rec s)"
      by (simp add: handleSendScheduledMessage_def refetched_def Let_def)
    show ?thesis
      by (auto simp: r scheduleUpdate_None scheduleUpdate_Some scheduleUpdate_sentScheduled)
  qed
  have b: "fst ?res = None
       \<and> (\<forall>r. ?rec = Some r \<longrightarrow>
              (\<forall>y \<in> set (schedules (snd ?res)). sc_id y = sc_id r \<longrightarrow>
                  sc_status y = ENVIADA \<and> sc_sentAt y = Some (floorMinute (e_now env))))
       \<and> (?rec = None \<longrightarrow> schedules (snd ?res) = schedules s)"
    if "sendPath env schedule s = Inr s1" for s1
  proof -
    from that have r: "?res =
        (None, scheduleUpdate (\<lambda>r. r\<lparr>sc_sentAt := Some (floorMinute (e_now env)), sc_status := ENVIADA\<rparr>) ?rec s1)"
      by (simp add: handleSendScheduledMessage_def refetched_def Let_def)
    from sendPath_schedules [OF that] show ?thesis
      by (auto simp: r scheduleUpdate_None scheduleUpdate_Some)
  qed
  have c: "fst ?res = None
       \<and> sentScheduled (snd ?res) = sentScheduled s @ [(ct_number c, sc_body schedule)]"
    if "e_findByPkRejects env \<and> sc_contact schedule = Some c
          \<and> e_GetDefaultWhatsApp env (sc_companyId schedule) = Inr w
          \<and> e_SendMessage env w (ct_number c) (sc_body schedule) = Inr ()" for c w
    using that
    by (simp add: handleSendScheduledMessage_def sendPath_def refetched_def scheduleUpdate_def Let_def)
  from a b c show ?thesis by blast
qed

theorem handleSendScheduledMessage_outcome_witness:
  "sendPath envNoSend (schedule1\<lparr>sc_status := AGENDADA\<rparr>) stateScheduled
     = Inl (External ''send'')
   \<and> refetched envNoSend (schedule1\<lparr>sc_status := AGENDADA\<rparr>) stateScheduled
       = Some (schedule1\<lparr>sc_status := AGENDADA\<rparr>)
   \<and> fst (handleSendScheduledMessage envNoSend (schedule1\<lparr>sc_status := AGENDADA\<rparr>)
            stateScheduled) = Some (External ''send'')
   \<and> map sc_status (schedules (snd (handleSendScheduledMessage envNoSend
            (schedule1\<lparr>sc_status := AGENDADA\<rparr>) stateScheduled))) = [ERRO]"
proof -
  let ?p = "schedule1\<lparr>sc_status := AGENDADA\<rparr>"
  let ?s' = "snd (handleSendScheduledMessage envNoSend ?p stateScheduled)"
  have f: "sendPath envNoSend ?p stateScheduled = Inl (External ''send'')"
    by (simp add: sendPath_def envNoSend_def env1_def schedule1_def)
  have g: "refetched envNoSend ?p stateScheduled = Some ?p"
    by (simp add: refetched_def envNoSend_def env1_def stateScheduled_def)
  from handleSendScheduledMessage_outcome [of envNoSend ?p stateScheduled] f g
  have h: "fst (handleSendScheduledMessage envNoSend ?p stateScheduled) = Some (External ''send'')
      \<and> (\<forall>y \<in> set (schedules ?s'). sc_id y = sc_id ?p \<longrightarrow> sc_status y = ERRO)"
    by blast
  have "length (schedules ?s') = 1 \<and> sc_id (hd (schedules ?s')) = sc_id ?p"
    by (simp only: handleSendScheduledMessage_def Let_def f g)
       (simp add: scheduleUpdate_def stateScheduled_def)
  then obtain y where y: "schedules ?s' = [y]" "sc_id y = sc_id ?p"
    by (cases "schedules ?s'") auto
  with h have "map sc_status (schedules ?s') = [ERRO]" by simp
  with f g h show ?thesis by blast
qed

text \<open>
  Claim C8 as stated fails when the re-fetch rejects: a failed send then leaves the
  schedule AGENDADA instead of ERRO, and a successful send leaves it AGENDADA instead
  of ENVIADA.
\<close>

theorem no_refetch_no_status_counterexample:
  "fst (handleSendScheduledMessage envNoRefetchNoSend (schedule1\<lparr>sc_status := AGENDADA\<rparr>)
         stateScheduled) = Some (External ''send'')
   \<and> map sc_status (schedules (snd (handleSendScheduledMessage envNoRefetchNoSend
         (schedule1\<lparr>sc_status := AGENDADA\<rparr>) stateScheduled))) = [AGENDADA]
   \<and> fst (handleSendScheduledMessage envNoRefetch (schedule1\<lparr>sc_status := AGENDADA\<rparr>)
         stateScheduled) = None
   \<and> map sc_status (schedules (snd (handleSendScheduledMessage envNoRefetch
         (schedule1\<lparr>sc_status := AGENDADA\<rparr>) stateScheduled))) = [AGENDADA]"
  by (simp add: handleSendScheduledMessage_def sendPath_def refetched_def scheduleUpdate_def Let_def
        envNoRefetchNoSend_def envNoRefetch_def env1_def schedule1_def stateScheduled_def
        state1_def contact1_def)

section \<open>Dispatcher\<close>

lemma campaign_update_other:
  "shippings (snd (campaign_update f c s)) = shippings s"
  "sent (snd (campaign_update f c s)) = sent s"
  "campaignQueue (snd (campaign_update f c s)) = campaignQueue s"
  by (simp_all add: campaign_update_def)

lemma sendStep_Inr:
  "sendStep env chatId x s = Inr s1 \<Longrightarrow> s1 = s\<lparr>sent := sent s @ [(chatId, x)]\<rparr>"
  by (auto simp: sendStep_def split: sum.splits)

lemma mediaStep_Inr:
  assumes "mediaStep env c chatId cf s = Inr s1"
  shows "shippings s1 = shippings s \<and> campaigns s1 = campaigns s
         \<and> campaignQueue s1 = campaignQueue s \<and> emitted s1 = emitted s
         \<and> (\<exists>m. sent s1 = sent s @ m \<and> length m \<le> 1 \<and> (cf \<longrightarrow> m = []))"
proof (cases "c_mediaPath c")
  case None
  with assms have "s1 = s" by (simp add: mediaStep_def)
  then show ?thesis by simp
next
  case (Some p)
  show ?thesis
  proof (cases "\<not> cf \<and> p \<noteq> []")
    case False
    with Some assms have "s1 = s" by (auto simp: mediaStep_def)
    then show ?thesis by simp
  next
    case True
    show ?thesis
    proof (cases "e_getMessageOptions env (c_mediaName c) p")
      case (Inl e)
      with Some True assms show ?thesis by (simp add: mediaStep_def)
    next
      case (Inr opt)
      show ?thesis
      proof (cases opt)
        case None
        with Inr Some True assms have "s1 = s" by (simp add: mediaStep_def)
        then show ?thesis by simp
      next
        case (Some options)
        with Inr \<open>c_mediaPath c = Some p\<close> True assms
        have "sendStep env chatId options s = Inr s1" by (simp add: mediaStep_def)
        from sendStep_Inr [OF this] True show ?thesis by simp
      qed
    qed
  qed
qed

lemma verifyAndFinalizeCampaign_other:
  "verifyAndFinalizeCampaign now c s = Inr (c', s') \<Longrightarrow>
     shippings s' = shippings s \<and> sent s' = sent s \<and> campaignQueue s' = campaignQueue s"
  by (auto simp: verifyAndFinalizeCampaign_def campaign_update_def Let_def
        split: option.splits if_splits)

lemma shipping_update_shippings:
  "shippings (snd (shipping_update f r s)) =
     map (\<lambda>x. if sh_id x = sh_id r then f x else x) (shippings s)"
  "sent (snd (shipping_update f r s)) = sent s"
  "campaignQueue (snd (shipping_update f r s)) = campaignQueue s"
  by (simp_all add: shipping_update_def)

lemma dispatchBody_outcome:
  assumes "shippingByPk s sid = Some r"
    and "dispatchBody env c sid s = (res, s')"
  shows "(shippings s' = shippings s \<and> res \<noteq> None)
         \<or> (shippings s' =
               map (\<lambda>x. if sh_id x = sid then confirmUpdate env c r x else x) (shippings s)
             \<and> (\<exists>m. sent s' = sent s @ m @ [(chatIdOf r, textOf c r)]
                    \<and> length m \<le> 1 \<and> (isConfirm c r \<longrightarrow> m = [])))"
proof -
  from assms(1) have id: "sh_id r = sid" by (auto simp: shippingByPk_def find_Some_iff)
  show ?thesis
  proof (cases "e_GetWhatsappWbot env (c_whatsappId c)")
    case (Inl e)
    with assms show ?thesis by (auto simp: dispatchBody_def Let_def)
  next
    case wb: (Inr u)
    show ?thesis
    proof (cases "mediaStep env c (chatIdOf r) (isConfirm c r) s")
      case (Inl e)
      with wb assms show ?thesis by (auto simp: dispatchBody_def Let_def chatIdOf_def)
    next
      case ms: (Inr s1)
      note m1 = mediaStep_Inr [OF ms]
      show ?thesis
      proof (cases "sendStep env (chatIdOf r) (textOf c r) s1")
        case (Inl e)
        with wb ms assms m1 show ?thesis
          by (auto simp: dispatchBody_def Let_def chatIdOf_def textOf_def)
      next
        case ss: (Inr s2)
        note s2 = sendStep_Inr [OF ss]
        let ?s3 = "snd (shipping_update (confirmUpdate env c r) r s2)"
        have cu: "(if isConfirm c r then (\<lambda>r. r\<lparr>sh_confirmationRequestedAt := Some (e_now env)\<rparr>)
                   else (\<lambda>r. r\<lparr>sh_deliveredAt := Some (e_now env)\<rparr>)) = confirmUpdate env c r"
          by (auto simp: confirmUpdate_def)
        have sh3: "shippings ?s3 =
            map (\<lambda>x. if sh_id x = sid then confirmUpdate env c r x else x) (shippings s)"
          using m1 s2 id by (simp add: shipping_update_shippings)
        from m1 obtain m where m: "sent s1 = sent s @ m" "length m \<le> 1" "isConfirm c r \<longrightarrow> m = []"
          by blast
        have se3: "sent ?s3 = sent s @ m @ [(chatIdOf r, textOf c r)]"
          using m(1) s2 by (simp add: shipping_update_shippings)
        show ?thesis
        proof (cases "verifyAndFinalizeCampaign (e_now env) c ?s3")
          case (Inl e)
          with wb ms ss assms cu have "s' = ?s3"
            by (simp add: dispatchBody_def Let_def chatIdOf_def textOf_def)
          with sh3 se3 m show ?thesis by blast
        next
          case (Inr cs)
          obtain c' s4 where cs: "cs = (c', s4)" by (cases cs)
          with Inr wb ms ss assms cu
          have s': "s' = s4\<lparr>emitted := emitted s4 @ [(c_companyId c', c')]\<rparr>"
            by (simp add: dispatchBody_def Let_def chatIdOf_def textOf_def)
          from Inr cs verifyAndFinalizeCampaign_other [of "e_now env" c ?s3 c' s4]
          have "shippings s4 = shippings ?s3 \<and> sent s4 = sent ?s3" by simp
          with s' sh3 se3 have "shippings s' =
               map (\<lambda>x. if sh_id x = sid then confirmUpdate env c r x else x) (shippings s)
             \<and> sent s' = sent s @ m @ [(chatIdOf r, textOf c r)]"
            by simp
          with m show ?thesis by blast
        qed
      qed
    qed
  qed
qed

lemma dispatchBody_missing:
  "shippingByPk s sid = None \<Longrightarrow>
     snd (dispatchBody env c sid s) = s \<and> fst (dispatchBody env c sid s) \<noteq> None"
  by (auto simp: dispatchBody_def Let_def split: sum.splits)

lemma handleDispatchCampaign_shippings:
  assumes "getCampaign s cid = Some c"
  shows "(fst (handleDispatchCampaign env cid sid k s) \<noteq> None
           \<and> shippings (snd (handleDispatchCampaign env cid sid k s)) = shippings s)
         \<or> (shippings (snd (handleDispatchCampaign env cid sid k s))
               = shippings (snd (dispatchBody env c sid s))
             \<and> sent (snd (handleDispatchCampaign env cid sid k s))
               = sent (snd (dispatchBody env c sid s))
             \<and> (fst (handleDispatchCampaign env cid sid k s) = None
                  \<longleftrightarrow> fst (dispatchBody env c sid s) = None))"
  using assms
  by (auto simp: handleDispatchCampaign_def Let_def campaign_update_other
        split: sum.splits option.splits prod.splits)

lemma stateConf_facts:
  "getCampaign stateConf 1 = Some campaignConf"
  "shippingByPk stateConf 1 = Some shipping1"
  "getCampaign stateConfirmed 1 = Some campaignConf"
  "shippingByPk stateConfirmed 1 = Some shippingConfirmed"
  by (simp_all add: stateConf_def stateConfirmed_def getCampaign_def shippingByPk_def
        campaignConf_def campaign1_def shipping1_def shippingConfirmed_def)

lemma dispatch_conf_ok:
  "fst (handleDispatchCampaign env1 1 1 7 stateConf) = None"
  "fst (handleDispatchCampaign env1 1 1 7 stateConfirmed) = None"
  by (simp_all add: stateConf_def stateConfirmed_def campaignConf_def shippingConfirmed_def
        example_defs handler_defs Let_def)

text \<open>
  Claim C7, as the code has it. A dispatch is a confirmation-request send when the
  campaign requires confirmation and the \<open>confirmation\<close> column of the shipping
  record is null; the test does not read \<open>confirmationRequestedAt\<close>. A dispatch that
  returns normally then sends the confirmation message and sets
  \<open>confirmationRequestedAt\<close> in the record, leaving every other column, in particular
  \<open>deliveredAt\<close>, as it was. Otherwise (no confirmation required, or the
  \<open>confirmation\<close> column is set) it sends the main message, after the media if any,
  and sets \<open>deliveredAt\<close>, leaving \<open>confirmationRequestedAt\<close> as it was. Whether it
  returns normally or throws, a dispatch writes at most one of the two columns.
\<close>

theorem handleDispatchCampaign_confirmation_flow:
  assumes "getCampaign s cid = Some c" and "shippingByPk s sid = Some r"
  shows "(fst (handleDispatchCampaign env cid sid k s) = None \<longrightarrow>
            (c_confirmation c \<and> sh_confirmation r = None \<longrightarrow>
               shippings (snd (handleDispatchCampaign env cid sid k s)) =
                 map (\<lambda>x. if sh_id x = sid
                          then x\<lparr>sh_confirmationRequestedAt := Some (e_now env)\<rparr> else x)
                   (shippings s)
               \<and> sent (snd (handleDispatchCampaign env cid sid k s)) =
                   sent s @ [(sh_number r @ ''@s.whatsapp.net'', Text (sh_confirmationMessage r))])
          \<and> (\<not> (c_confirmation c \<and> sh_confirmation r = None) \<longrightarrow>
               shippings (snd (handleDispatchCampaign env cid sid k s)) =
                 map (\<lambda>x. if sh_id x = sid then x\<lparr>sh_deliveredAt := Some (e_now env)\<rparr> else x)
                   (shippings s)
               \<and> (\<exists>m. sent (snd (handleDispatchCampaign env cid sid k s)) =
                         sent s @ m @ [(sh_number r @ ''@s.whatsapp.net'', Text (sh_message r))]
                      \<and> length m \<le> 1)))
         \<and> (shippings (snd (handleDispatchCampaign env cid sid k s)) = shippings s
             \<or> shippings (snd (handleDispatchCampaign env cid sid k s)) =
                 map (\<lambda>x. if sh_id x = sid
                          then x\<lparr>sh_confirmationRequestedAt := Some (e_now env)\<rparr> else x)
                   (shippings s)
             \<or> shippings (snd (handleDispatchCampaign env cid sid k s)) =
                 map (\<lambda>x. if sh_id x = sid then x\<lparr>sh_deliveredAt := Some (e_now env)\<rparr> else x)
                   (shippings s))"
proof -
  let ?h = "handleDispatchCampaign env cid sid k s"
  let ?b = "dispatchBody env c sid s"
  from dispatchBody_outcome [OF assms(2), of env c "fst ?b" "snd ?b"]
  have b: "(shippings (snd ?b) = shippings s \<and> fst ?b \<noteq> None)
         \<or> (shippings (snd ?b) =
               map (\<lambda>x. if sh_id x = sid then confirmUpdate env c r x else x) (shippings s)
             \<and> (\<exists>m. sent (snd ?b) = sent s @ m @ [(chatIdOf r, textOf c r)]
                    \<and> length m \<le> 1 \<and> (isConfirm c r \<longrightarrow> m = [])))"
    by simp
  note h = handleDispatchCampaign_shippings [OF assms(1), of env sid k]
  have cu: "confirmUpdate env c r =
      (if c_confirmation c \<and> sh_confirmation r = None
       then (\<lambda>x. x\<lparr>sh_confirmationRequestedAt := Some (e_now env)\<rparr>)
       else (\<lambda>x. x\<lparr>sh_deliveredAt := Some (e_now env)\<rparr>))"
    by (auto simp: confirmUpdate_def isConfirm_def)
  have tx: "textOf c r =
      Text (if c_confirmation c \<and> sh_confirmation r = None
            then sh_confirmationMessage r else sh_message r)"
    by (simp add: textOf_def isConfirm_def)
  have ok: "shippings (snd ?h) =
               map (\<lambda>x. if sh_id x = sid then confirmUpdate env c r x else x) (shippings s)
             \<and> (\<exists>m. sent (snd ?h) = sent s @ m @ [(chatIdOf r, textOf c r)]
                    \<and> length m \<le> 1 \<and> (isConfirm c r \<longrightarrow> m = []))"
    if "fst ?h = None"
    using that b h by auto
  have first: "fst ?h = None \<longrightarrow>
            (c_confirmation c \<and> sh_confirmation r = None \<longrightarrow>
               shippings (snd ?h) =
                 map (\<lambda>x. if sh_id x = sid
                          then x\<lparr>sh_confirmationRequestedAt := Some (e_now env)\<rparr> else x)
                   (shippings s)
               \<and> sent (snd ?h) =
                   sent s @ [(sh_number r @ ''@s.whatsapp.net'', Text (sh_confirmationMessage r))])
          \<and> (\<not> (c_confirmation c \<and> sh_confirmation r = None) \<longrightarrow>
               shippings (snd ?h) =
                 map (\<lambda>x. if sh_id x = sid then x\<lparr>sh_deliveredAt := Some (e_now env)\<rparr> else x)
                   (shippings s)
               \<and> (\<exists>m. sent (snd ?h) =
                         sent s @ m @ [(sh_number r @ ''@s.whatsapp.net'', Text (sh_message r))]
                      \<and> length m \<le> 1))"
  proof
    assume "fst ?h = None"
    from ok [OF this] show "(c_confirmation c \<and> sh_confirmation r = None \<longrightarrow>
               shippings (snd ?h) =
                 map (\<lambda>x. if sh_id x = sid
                          then x\<lparr>sh_confirmationRequestedAt := Some (e_now env)\<rparr> else x)
                   (shippings s)
               \<and> sent (snd ?h) =
                   sent s @ [(sh_number r @ ''@s.whatsapp.net'', Text (sh_confirmationMessage r))])
          \<and> (\<not> (c_confirmation c \<and> sh_confirmation r = None) \<longrightarrow>
               shippings (snd ?h) =
                 map (\<lambda>x. if sh_id x = sid then x\<lparr>sh_deliveredAt := Some (e_now env)\<rparr> else x)
                   (shippings s)
               \<and> (\<exists>m. sent (snd ?h) =
                         sent s @ m @ [(sh_number r @ ''@s.whatsapp.net'', Text (sh_message r))]
                      \<and> length m \<le> 1))"
      by (auto simp: cu tx chatIdOf_def isConfirm_def)
  qed
  have second: "shippings (snd ?h) = shippings s
             \<or> shippings (snd ?h) =
                 map (\<lambda>x. if sh_id x = sid
                          then x\<lparr>sh_confirmationRequestedAt := Some (e_now env)\<rparr> else x)
                   (shippings s)
             \<or> shippings (snd ?h) =
                 map (\<lambda>x. if sh_id x = sid then x\<lparr>sh_deliveredAt := Some (e_now env)\<rparr> else x)
                   (shippings s)"
    using b h by (auto simp: cu)
  from first second show ?thesis by blast
qed

theorem handleDispatchCampaign_confirmation_flow_witness:
  "getCampaign stateConf 1 = Some campaignConf
   \<and> shippingByPk stateConf 1 = Some shipping1
   \<and> c_confirmation campaignConf \<and> sh_confirmation shipping1 = None
   \<and> fst (handleDispatchCampaign env1 1 1 7 stateConf) = None
   \<and> map sh_confirmationRequestedAt (shippings (snd (handleDispatchCampaign env1 1 1 7 stateConf)))
        = [Some 70000]
   \<and> map sh_deliveredAt (shippings (snd (handleDispatchCampaign env1 1 1 7 stateConf))) = [None]
   \<and> sent (snd (handleDispatchCampaign env1 1 1 7 stateConf))
        = [(''5511900000001@s.whatsapp.net'', Text (Some ''Confirma?''))]
   \<and> getCampaign stateConfirmed 1 = Some campaignConf
   \<and> shippingByPk stateConfirmed 1 = Some shippingConfirmed
   \<and> sh_confirmation shippingConfirmed = Some True
   \<and> fst (handleDispatchCampaign env1 1 1 7 stateConfirmed) = None
   \<and> map sh_deliveredAt (shippings (snd (handleDispatchCampaign env1 1 1 7 stateConfirmed)))
        = [Some 70000]
   \<and> map sh_confirmationRequestedAt
        (shippings (snd (handleDispatchCampaign env1 1 1 7 stateConfirmed))) = [Some 65000]"
proof -
  have c: "c_confirmation campaignConf \<and> sh_confirmation shipping1 = None"
    by (simp add: campaignConf_def shipping1_def)
  have d: "sh_confirmation shippingConfirmed = Some True"
    "\<not> (c_confirmation campaignConf \<and> sh_confirmation shippingConfirmed = None)"
    by (simp_all add: shippingConfirmed_def)
  from handleDispatchCampaign_confirmation_flow [OF stateConf_facts(1,2), of env1 7]
    dispatch_conf_ok(1) c
  have a: "shippings (snd (handleDispatchCampaign env1 1 1 7 stateConf)) =
             map (\<lambda>x. if sh_id x = 1
                      then x\<lparr>sh_confirmationRequestedAt := Some (e_now env1)\<rparr> else x)
               (shippings stateConf)
           \<and> sent (snd (handleDispatchCampaign env1 1 1 7 stateConf)) =
               sent stateConf @ [(sh_number shipping1 @ ''@s.whatsapp.net'',
                                  Text (sh_confirmationMessage shipping1))]"
    by blast
  from handleDispatchCampaign_confirmation_flow [OF stateConf_facts(3,4), of env1 7]
    dispatch_conf_ok(2) d(2)
  have b: "shippings (snd (handleDispatchCampaign env1 1 1 7 stateConfirmed)) =
             map (\<lambda>x. if sh_id x = 1 then x\<lparr>sh_deliveredAt := Some (e_now env1)\<rparr> else x)
               (shippings stateConfirmed)"
    by blast
  have a': "map sh_confirmationRequestedAt (shippings (snd (handleDispatchCampaign env1 1 1 7 stateConf)))
        = [Some 70000]
     \<and> map sh_deliveredAt (shippings (snd (handleDispatchCampaign env1 1 1 7 stateConf))) = [None]
     \<and> sent (snd (handleDispatchCampaign env1 1 1 7 stateConf))
        = [(''5511900000001@s.whatsapp.net'', Text (Some ''Confirma?''))]"
    by (simp only: a) (simp add: stateConf_def state1_def shipping1_def env1_def)
  have b': "map sh_deliveredAt (shippings (snd (handleDispatchCampaign env1 1 1 7 stateConfirmed)))
        = [Some 70000]
     \<and> map sh_confirmationRequestedAt
        (shippings (snd (handleDispatchCampaign env1 1 1 7 stateConfirmed))) = [Some 65000]"
    by (simp only: b) (simp add: stateConfirmed_def state1_def shippingConfirmed_def shipping1_def env1_def)
  from stateConf_facts c d(1) dispatch_conf_ok a' b' show ?thesis by (simp only: simp_thms)
qed

text \<open>
  Claim C7 as stated fails: a second dispatch for the recipient, run after the first
  with the \<open>confirmation\<close> column still null, sends the confirmation message again
  and leaves \<open>deliveredAt\<close> null.
\<close>

theorem repeated_dispatch_counterexample:
  "map sh_confirmationRequestedAt (shippings afterRequest) = [Some 70000]
   \<and> map sh_deliveredAt (shippings afterRepeat) = [None]
   \<and> sent afterRepeat
        = [(''5511900000001@s.whatsapp.net'', Text (Some ''Confirma?'')),
           (''5511900000001@s.whatsapp.net'', Text (Some ''Confirma?''))]"
  by (simp add: afterRepeat_def afterRequest_def stateConf_def campaignConf_def
        example_defs handler_defs Let_def)

section \<open>Contact Preparer\<close>

lemma buildShipping_keys:
  "buildShipping env c cid item contact = Inr d \<Longrightarrow>
     sd_contactId d = cli_id item \<and> sd_campaignId d = cid"
  by (auto simp: buildShipping_def split: sum.splits if_splits)

lemma undelivered_setShipping: "undelivered (setShipping d r) = undelivered r"
  by (simp add: undelivered_def setShipping_def)

lemma upsertShipping_found_done:
  "findShipping s (sd_campaignId d) (sd_contactId d) = Some r \<Longrightarrow> \<not> undelivered r \<Longrightarrow>
     upsertShipping c contact d delay s = s"
  by (simp add: upsertShipping_def findOrCreate_def refreshRecord_def enqueueDispatch_def)

lemma upsertShipping_found_open:
  "findShipping s (sd_campaignId d) (sd_contactId d) = Some r \<Longrightarrow> undelivered r \<Longrightarrow>
     shippings (upsertShipping c contact d delay s) =
       map (\<lambda>x. if sh_id x = sh_id r
                then (setShipping d x)\<lparr>sh_jobId := Some (Suc (length (campaignQueue s)))\<rparr>
                else x) (shippings s)
     \<and> campaignQueue (upsertShipping c contact d delay s) =
         campaignQueue s @ [\<lparr>j_id = Suc (length (campaignQueue s)),
                              j_data = DispatchCampaign (c_id c) (sh_id r) (ct_id contact),
                              j_delay = Some delay, j_removeOnComplete = False\<rparr>]"
  by (simp add: upsertShipping_def findOrCreate_def refreshRecord_def enqueueDispatch_def
        shipping_update_def queue_add_def undelivered_setShipping Let_def)
     (simp add: setShipping_def)

lemma upsertShipping_created:
  "findShipping s (sd_campaignId d) (sd_contactId d) = None \<Longrightarrow>
     shippings (upsertShipping c contact d delay s) =
       map (\<lambda>x. if sh_id x = sh_id (newShipping d s)
                then x\<lparr>sh_jobId := Some (Suc (length (campaignQueue s)))\<rparr> else x)
         (shippings s @ [newShipping d s])
     \<and> campaignQueue (upsertShipping c contact d delay s) =
         campaignQueue s @ [\<lparr>j_id = Suc (length (campaignQueue s)),
                              j_data = DispatchCampaign (c_id c) (sh_id (newShipping d s))
                                         (ct_id contact),
                              j_delay = Some delay, j_removeOnComplete = False\<rparr>]"
proof -
  have u: "undelivered (newShipping d s)" by (simp add: undelivered_def newShipping_def)
  assume "findShipping s (sd_campaignId d) (sd_contactId d) = None"
  then show ?thesis
    by (simp add: upsertShipping_def findOrCreate_def refreshRecord_def enqueueDispatch_def
          shipping_update_def queue_add_def Let_def u)
qed

lemma prepareBody_upsert:
  "(shippings (snd (prepareBody env c i cid delay s)) = shippings s
      \<and> campaignQueue (snd (prepareBody env c i cid delay s)) = campaignQueue s)
   \<or> (\<exists>item contact d.
         e_ShowService env i = Inr item
         \<and> sd_contactId d = cli_id item \<and> sd_campaignId d = cid
         \<and> shippings (snd (prepareBody env c i cid delay s))
             = shippings (upsertShipping c contact d delay s)
         \<and> campaignQueue (snd (prepareBody env c i cid delay s))
             = campaignQueue (upsertShipping c contact d delay s))"
  (is "?A \<or> ?B")
proof (cases "e_ShowService env i")
  case (Inl e)
  then show ?thesis by (simp add: prepareBody_def)
next
  case it: (Inr item)
  show ?thesis
  proof (cases "e_GetWhatsappWbot env (c_whatsappId c)")
    case (Inl e)
    with it show ?thesis by (simp add: prepareBody_def)
  next
    case wb: (Inr u)
    show ?thesis
    proof (cases "e_verifyContact env (cli_name item) (cli_number item) (c_companyId c)")
      case (Inl e)
      with it wb show ?thesis by (simp add: prepareBody_def)
    next
      case vc: (Inr contact)
      show ?thesis
      proof (cases "buildShipping env c cid item contact")
        case (Inl e)
        with it wb vc show ?thesis by (simp add: prepareBody_def)
      next
        case bd: (Inr d)
        note dk = buildShipping_keys [OF bd]
        let ?s3 = "upsertShipping c contact d delay s"
        have fin: "shippings (snd (prepareBody env c i cid delay s)) = shippings ?s3
             \<and> campaignQueue (snd (prepareBody env c i cid delay s)) = campaignQueue ?s3"
        proof (cases "verifyAndFinalizeCampaign (e_now env) c ?s3")
          case (Inl e)
          with it wb vc bd show ?thesis by (simp add: prepareBody_def)
        next
          case (Inr cs)
          obtain c' s4 where cs: "cs = (c', s4)" by (cases cs)
          from Inr cs verifyAndFinalizeCampaign_other [of "e_now env" c ?s3 c' s4]
          have "shippings s4 = shippings ?s3 \<and> campaignQueue s4 = campaignQueue ?s3" by simp
          with it wb vc bd Inr cs show ?thesis by (simp add: prepareBody_def)
        qed
        with it dk have ?B by blast
        then show ?thesis by blast
      qed
    qed
  qed
qed

lemma handlePrepareContact_body:
  "(shippings (snd (handlePrepareContact env i cid delay s)) = shippings s
      \<and> campaignQueue (snd (handlePrepareContact env i cid delay s)) = campaignQueue s)
   \<or> (\<exists>c. getCampaign s cid = Some c
         \<and> shippings (snd (handlePrepareContact env i cid delay s))
             = shippings (snd (prepareBody env c i cid delay s))
         \<and> campaignQueue (snd (handlePrepareContact env i cid delay s))
             = campaignQueue (snd (prepareBody env c i cid delay s)))"
  by (auto simp: handlePrepareContact_def campaign_update_other
        split: option.splits prod.splits)

lemma fold_max_ge:
  fixes a :: nat
  shows "a \<le> fold max xs a \<and> (\<forall>x \<in> set xs. x \<le> fold max xs a)"
proof (induction xs arbitrary: a)
  case Nil
  then show ?case by simp
next
  case (Cons y ys)
  from Cons.IH [of "max y a"] show ?case by auto
qed

lemma nextShippingId_fresh: "x \<in> set rs \<Longrightarrow> sh_id x < nextShippingId rs"
  using fold_max_ge [of 0 "map sh_id rs"] by (auto simp: nextShippingId_def less_Suc_eq_le)

lemma findShipping_Some:
  "findShipping s a b = Some r \<Longrightarrow> r \<in> set (shippings s) \<and> pairOf r = (a, b)"
  by (auto simp: findShipping_def pairOf_def find_Some_iff)

lemma findShipping_None:
  "findShipping s a b = None \<Longrightarrow> (a, b) \<notin> set (map pairOf (shippings s))"
  by (auto simp: findShipping_def pairOf_def find_None_iff)

lemma distinct_id_eq:
  "distinct (map sh_id xs) \<Longrightarrow> x \<in> set xs \<Longrightarrow> r \<in> set xs \<Longrightarrow> sh_id x = sh_id r \<Longrightarrow> x = r"
  by (meson distinct_map inj_onD)

lemma upsertShipping_cases:
  "upsertShipping c contact d delay s = s
   \<or> (\<exists>r. findShipping s (sd_campaignId d) (sd_contactId d) = Some r \<and> undelivered r
         \<and> shippings (upsertShipping c contact d delay s) =
             map (\<lambda>x. if sh_id x = sh_id r
                      then (setShipping d x)\<lparr>sh_jobId := Some (Suc (length (campaignQueue s)))\<rparr>
                      else x) (shippings s)
         \<and> campaignQueue (upsertShipping c contact d delay s) =
             campaignQueue s @ [\<lparr>j_id = Suc (length (campaignQueue s)),
                                  j_data = DispatchCampaign (c_id c) (sh_id r) (ct_id contact),
                                  j_delay = Some delay, j_removeOnComplete = False\<rparr>])
   \<or> (findShipping s (sd_campaignId d) (sd_contactId d) = None
       \<and> shippings (upsertShipping c contact d delay s) =
           map (\<lambda>x. if sh_id x = sh_id (newShipping d s)
                    then x\<lparr>sh_jobId := Some (Suc (length (campaignQueue s)))\<rparr> else x)
             (shippings s @ [newShipping d s])
       \<and> campaignQueue (upsertShipping c contact d delay s) =
           campaignQueue s @ [\<lparr>j_id = Suc (length (campaignQueue s)),
                                j_data = DispatchCampaign (c_id c) (sh_id (newShipping d s))
                                           (ct_id contact),
                                j_delay = Some delay, j_removeOnComplete = False\<rparr>])"
proof (cases "findShipping s (sd_campaignId d) (sd_contactId d)")
  case None
  from upsertShipping_created [OF None] None show ?thesis by blast
next
  case (Some r)
  show ?thesis
  proof (cases "undelivered r")
    case True
    from upsertShipping_found_open [OF Some True] Some True show ?thesis by blast
  next
    case False
    from upsertShipping_found_done [OF Some False] show ?thesis by blast
  qed
qed

lemma upsertShipping_queue:
  "\<exists>new. campaignQueue (upsertShipping c contact d delay s) = campaignQueue s @ new
      \<and> length new \<le> 1 \<and> (\<forall>j \<in> set new. isDispatch j)"
proof -
  from upsertShipping_cases [of c contact d delay s]
  consider "upsertShipping c contact d delay s = s"
    | j where "campaignQueue (upsertShipping c contact d delay s) = campaignQueue s @ [j]"
        "isDispatch j"
    by (auto simp: isDispatch_def)
  then show ?thesis
  proof cases
    case 1
    then have "campaignQueue (upsertShipping c contact d delay s) = campaignQueue s @ []
        \<and> length ([] :: job list) \<le> 1 \<and> (\<forall>j \<in> set ([] :: job list). isDispatch j)"
      by simp
    then show ?thesis by blast
  next
    case 2
    then have "campaignQueue (upsertShipping c contact d delay s) = campaignQueue s @ [j]
        \<and> length [j] \<le> 1 \<and> (\<forall>x \<in> set [j]. isDispatch x)"
      by simp
    then show ?thesis by blast
  qed
qed

lemma upsertShipping_deliveredAt:
  "\<exists>n. map sh_deliveredAt (shippings (upsertShipping c contact d delay s))
         = map sh_deliveredAt (shippings s) @ replicate n None"
  using upsertShipping_cases [of c contact d delay s]
proof (elim disjE exE conjE)
  assume "upsertShipping c contact d delay s = s"
  then have "map sh_deliveredAt (shippings (upsertShipping c contact d delay s))
         = map sh_deliveredAt (shippings s) @ replicate 0 None"
    by simp
  then show ?thesis by blast
next
  fix r
  assume "shippings (upsertShipping c contact d delay s) =
             map (\<lambda>x. if sh_id x = sh_id r
                      then (setShipping d x)\<lparr>sh_jobId := Some (Suc (length (campaignQueue s)))\<rparr>
                      else x) (shippings s)"
  then have "map sh_deliveredAt (shippings (upsertShipping c contact d delay s))
         = map sh_deliveredAt (shippings s) @ replicate 0 None"
    by (simp add: comp_def setShipping_def if_distrib cong: if_cong)
  then show ?thesis by blast
next
  assume "shippings (upsertShipping c contact d delay s) =
           map (\<lambda>x. if sh_id x = sh_id (newShipping d s)
                    then x\<lparr>sh_jobId := Some (Suc (length (campaignQueue s)))\<rparr> else x)
             (shippings s @ [newShipping d s])"
  then have "map sh_deliveredAt (shippings (upsertShipping c contact d delay s))
         = map sh_deliveredAt (shippings s) @ replicate 1 None"
    by (simp add: comp_def newShipping_def if_distrib cong: if_cong)
  then show ?thesis by blast
qed

lemma upsertShipping_unique:
  assumes "uniqueShippings s"
  shows "uniqueShippings (upsertShipping c contact d delay s)"
  using upsertShipping_cases [of c contact d delay s]
proof (elim disjE exE conjE)
  assume "upsertShipping c contact d delay s = s"
  with assms show ?thesis by simp
next
  fix r :: campaign_shipping
  let ?n = "Suc (length (campaignQueue s))"
  let ?g = "\<lambda>x. if sh_id x = sh_id r then (setShipping d x)\<lparr>sh_jobId := Some ?n\<rparr> else x"
  assume f: "findShipping s (sd_campaignId d) (sd_contactId d) = Some r"
    and sh: "shippings (upsertShipping c contact d delay s) = map ?g (shippings s)"
  from assms have di: "distinct (map sh_id (shippings s))"
    and dp: "distinct (map pairOf (shippings s))"
    by (simp_all add: uniqueShippings_def)
  from findShipping_Some [OF f]
  have r: "r \<in> set (shippings s)" "pairOf r = (sd_campaignId d, sd_contactId d)" by simp_all
  have ids: "map sh_id (map ?g (shippings s)) = map sh_id (shippings s)"
    by (simp add: comp_def setShipping_def if_distrib cong: if_cong)
  have "pairOf (?g x) = pairOf x" if "x \<in> set (shippings s)" for x
  proof (cases "sh_id x = sh_id r")
    case True
    from distinct_id_eq [OF di that r(1) True] r(2) show ?thesis
      by (simp add: pairOf_def setShipping_def)
  next
    case False
    then show ?thesis by simp
  qed
  then have prs: "map pairOf (map ?g (shippings s)) = map pairOf (shippings s)"
    by (simp add: comp_def)
  from di have a: "distinct (map sh_id (map ?g (shippings s)))" by (simp only: ids)
  from dp have b: "distinct (map pairOf (map ?g (shippings s)))" by (simp only: prs)
  show ?thesis by (simp only: uniqueShippings_def sh a b simp_thms)
next
  let ?n = "Suc (length (campaignQueue s))"
  let ?r = "newShipping d s"
  let ?g = "\<lambda>x. if sh_id x = sh_id ?r then x\<lparr>sh_jobId := Some ?n\<rparr> else x"
  assume f: "findShipping s (sd_campaignId d) (sd_contactId d) = None"
    and sh: "shippings (upsertShipping c contact d delay s) = map ?g (shippings s @ [?r])"
  from assms have di: "distinct (map sh_id (shippings s))"
    and dp: "distinct (map pairOf (shippings s))"
    by (simp_all add: uniqueShippings_def)
  have ids: "map sh_id (map ?g (shippings s @ [?r])) = map sh_id (shippings s) @ [sh_id ?r]"
    by (simp add: comp_def if_distrib cong: if_cong)
  have prs: "map pairOf (map ?g (shippings s @ [?r])) = map pairOf (shippings s) @ [pairOf ?r]"
    by (simp add: comp_def pairOf_def if_distrib cong: if_cong)
  have "sh_id ?r \<notin> set (map sh_id (shippings s))"
  proof
    assume "sh_id ?r \<in> set (map sh_id (shippings s))"
    then obtain x where x: "x \<in> set (shippings s)" "sh_id x = sh_id ?r" by auto
    from nextShippingId_fresh [OF x(1)] x(2) show False by (simp add: newShipping_def)
  qed
  with di have "distinct (map sh_id (shippings s) @ [sh_id ?r])" by simp
  then have a: "distinct (map sh_id (map ?g (shippings s @ [?r])))" by (simp only: ids)
  have "pairOf ?r \<notin> set (map pairOf (shippings s))"
    using findShipping_None [OF f] by (simp add: pairOf_def newShipping_def)
  with dp have "distinct (map pairOf (shippings s) @ [pairOf ?r])" by simp
  then have b: "distinct (map pairOf (map ?g (shippings s @ [?r])))" by (simp only: prs)
  show ?thesis by (simp only: uniqueShippings_def sh a b simp_thms)
qed

lemma uniqueShippings_cong:
  "shippings a = shippings b \<Longrightarrow> uniqueShippings a = uniqueShippings b"
  by (simp add: uniqueShippings_def)

lemma distinct_key_count:
  "distinct (map f xs) \<Longrightarrow> length (filter (\<lambda>x. f x = v) xs) \<le> 1"
proof (induction xs)
  case Nil
  then show ?case by simp
next
  case (Cons a xs)
  show ?case
  proof (cases "f a = v")
    case True
    with Cons.prems have "v \<notin> f ` set xs" by simp
    then have "\<forall>x \<in> set xs. f x \<noteq> v" by (metis imageI)
    then have "filter (\<lambda>x. f x = v) xs = []" by (simp add: filter_empty_conv)
    with True show ?thesis by simp
  next
    case False
    with Cons show ?thesis by simp
  qed
qed

lemma handlePrepareContact_upsert:
  "(shippings (snd (handlePrepareContact env i cid delay s)) = shippings s
      \<and> campaignQueue (snd (handlePrepareContact env i cid delay s)) = campaignQueue s)
   \<or> (\<exists>c item contact d.
         e_ShowService env i = Inr item
         \<and> sd_contactId d = cli_id item \<and> sd_campaignId d = cid
         \<and> shippings (snd (handlePrepareContact env i cid delay s))
             = shippings (upsertShipping c contact d delay s)
         \<and> campaignQueue (snd (handlePrepareContact env i cid delay s))
             = campaignQueue (upsertShipping c contact d delay s))"
  using handlePrepareContact_body [of env i cid delay s]
proof (elim disjE exE conjE)
  assume "shippings (snd (handlePrepareContact env i cid delay s)) = shippings s"
    "campaignQueue (snd (handlePrepareContact env i cid delay s)) = campaignQueue s"
  then show ?thesis by blast
next
  fix c
  assume h: "shippings (snd (handlePrepareContact env i cid delay s))
             = shippings (snd (prepareBody env c i cid delay s))"
    "campaignQueue (snd (handlePrepareContact env i cid delay s))
             = campaignQueue (snd (prepareBody env c i cid delay s))"
  from prepareBody_upsert [of env c i cid delay s] show ?thesis
  proof (elim disjE exE conjE)
    assume "shippings (snd (prepareBody env c i cid delay s)) = shippings s"
      "campaignQueue (snd (prepareBody env c i cid delay s)) = campaignQueue s"
    with h show ?thesis by simp
  next
    fix item contact d
    assume "e_ShowService env i = Inr item" "sd_contactId d = cli_id item"
      "sd_campaignId d = cid"
      "shippings (snd (prepareBody env c i cid delay s))
             = shippings (upsertShipping c contact d delay s)"
      "campaignQueue (snd (prepareBody env c i cid delay s))
             = campaignQueue (upsertShipping c contact d delay s)"
    with h have "e_ShowService env i = Inr item
         \<and> sd_contactId d = cli_id item \<and> sd_campaignId d = cid
         \<and> shippings (snd (handlePrepareContact env i cid delay s))
             = shippings (upsertShipping c contact d delay s)
         \<and> campaignQueue (snd (handlePrepareContact env i cid delay s))
             = campaignQueue (upsertShipping c contact d delay s)"
      by simp
    then show ?thesis by blast
  qed
qed

lemma handlePrepareContact_gate:
  assumes "e_ShowService env i = Inr item" and "findShipping s cid (cli_id item) = Some r"
    and "\<not> undelivered r"
  shows "campaignQueue (snd (handlePrepareContact env i cid delay s)) = campaignQueue s
         \<and> shippings (snd (handlePrepareContact env i cid delay s)) = shippings s"
  using handlePrepareContact_upsert [of env i cid delay s]
proof (elim disjE exE conjE)
  assume "shippings (snd (handlePrepareContact env i cid delay s)) = shippings s"
    "campaignQueue (snd (handlePrepareContact env i cid delay s)) = campaignQueue s"
  then show ?thesis by simp
next
  fix c item' contact d
  assume a: "e_ShowService env i = Inr item'" "sd_contactId d = cli_id item'"
    "sd_campaignId d = cid"
    "shippings (snd (handlePrepareContact env i cid delay s))
       = shippings (upsertShipping c contact d delay s)"
    "campaignQueue (snd (handlePrepareContact env i cid delay s))
       = campaignQueue (upsertShipping c contact d delay s)"
  from a(1) assms(1) have "item' = item" by simp
  with a(2,3) assms(2) have "findShipping s (sd_campaignId d) (sd_contactId d) = Some r"
    by simp
  from upsertShipping_found_done [OF this assms(3)] a(4,5) show ?thesis by simp
qed

lemma handlePrepareContact_queue:
  "\<exists>new. campaignQueue (snd (handlePrepareContact env i cid delay s)) = campaignQueue s @ new
      \<and> length new \<le> 1 \<and> (\<forall>j \<in> set new. isDispatch j)"
  using handlePrepareContact_upsert [of env i cid delay s]
proof (elim disjE exE conjE)
  assume "campaignQueue (snd (handlePrepareContact env i cid delay s)) = campaignQueue s"
  then have "campaignQueue (snd (handlePrepareContact env i cid delay s)) = campaignQueue s @ []
      \<and> length ([] :: job list) \<le> 1 \<and> (\<forall>j \<in> set ([] :: job list). isDispatch j)"
    by simp
  then show ?thesis by blast
next
  fix c :: campaign and contact :: contact and d :: shipping_data
  assume "campaignQueue (snd (handlePrepareContact env i cid delay s))
       = campaignQueue (upsertShipping c contact d delay s)"
  with upsertShipping_queue [of c contact d delay s] show ?thesis by simp
qed

lemma handlePrepareContact_unique:
  assumes "uniqueShippings s"
  shows "uniqueShippings (snd (handlePrepareContact env i cid delay s))"
  using handlePrepareContact_upsert [of env i cid delay s]
proof (elim disjE exE conjE)
  assume "shippings (snd (handlePrepareContact env i cid delay s)) = shippings s"
  from uniqueShippings_cong [OF this] assms show ?thesis by simp
next
  fix c :: campaign and contact :: contact and d :: shipping_data
  assume "shippings (snd (handlePrepareContact env i cid delay s))
       = shippings (upsertShipping c contact d delay s)"
  from uniqueShippings_cong [OF this] upsertShipping_unique [OF assms, of c contact d delay]
  show ?thesis by simp
qed

lemma handlePrepareContact_deliveredAt:
  "\<exists>n. map sh_deliveredAt (shippings (snd (handlePrepareContact env i cid delay s)))
         = map sh_deliveredAt (shippings s) @ replicate n None"
  using handlePrepareContact_upsert [of env i cid delay s]
proof (elim disjE exE conjE)
  assume "shippings (snd (handlePrepareContact env i cid delay s)) = shippings s"
  then have "map sh_deliveredAt (shippings (snd (handlePrepareContact env i cid delay s)))
         = map sh_deliveredAt (shippings s) @ replicate 0 None"
    by simp
  then show ?thesis by blast
next
  fix c :: campaign and contact :: contact and d :: shipping_data
  assume "shippings (snd (handlePrepareContact env i cid delay s))
       = shippings (upsertShipping c contact d delay s)"
  with upsertShipping_deliveredAt [of c contact d delay s] show ?thesis by simp
qed

text \<open>
  Claim C2, as the code has it. When the shipping record that exists for the
  recipient has a non-null \<open>deliveredAt\<close> or a non-null \<open>confirmationRequestedAt\<close>,
  a run of the Contact Preparer adds no job to the queue and leaves the shipping table
  as it was. Every run adds at most one job, and only a DispatchCampaign job. A run
  keeps ids and (campaignId, contactId) keys unique in the shipping table, so after
  two runs in sequence there is at most one shipping record for any recipient of the
  campaign. The number of dispatch jobs is bounded per run, not per record: each run
  made while the record is undelivered and unconfirmed adds one.
\<close>

theorem handlePrepareContact_at_most_once:
  "(\<forall>item r. e_ShowService env i = Inr item \<and> findShipping s cid (cli_id item) = Some r
        \<and> (sh_deliveredAt r \<noteq> None \<or> sh_confirmationRequestedAt r \<noteq> None) \<longrightarrow>
        campaignQueue (snd (handlePrepareContact env i cid delay s)) = campaignQueue s
        \<and> shippings (snd (handlePrepareContact env i cid delay s)) = shippings s)
   \<and> (\<exists>new. campaignQueue (snd (handlePrepareContact env i cid delay s)) = campaignQueue s @ new
          \<and> length new \<le> 1 \<and> (\<forall>j \<in> set new. isDispatch j))
   \<and> (uniqueShippings s \<longrightarrow>
        uniqueShippings (snd (handlePrepareContact env i cid delay s))
        \<and> uniqueShippings
            (snd (handlePrepareContact env2 i cid delay2
                   (snd (handlePrepareContact env i cid delay s))))
        \<and> (\<forall>k. length (filter (\<lambda>r. sh_campaignId r = cid \<and> sh_contactId r = k)
                     (shippings (snd (handlePrepareContact env2 i cid delay2
                                       (snd (handlePrepareContact env i cid delay s))))))
                 \<le> 1))"
proof -
  let ?s1 = "snd (handlePrepareContact env i cid delay s)"
  let ?s2 = "snd (handlePrepareContact env2 i cid delay2 ?s1)"
  have a: "\<forall>item r. e_ShowService env i = Inr item \<and> findShipping s cid (cli_id item) = Some r
        \<and> (sh_deliveredAt r \<noteq> None \<or> sh_confirmationRequestedAt r \<noteq> None) \<longrightarrow>
        campaignQueue ?s1 = campaignQueue s \<and> shippings ?s1 = shippings s"
  proof (intro allI impI)
    fix item r
    assume h: "e_ShowService env i = Inr item \<and> findShipping s cid (cli_id item) = Some r
        \<and> (sh_deliveredAt r \<noteq> None \<or> sh_confirmationRequestedAt r \<noteq> None)"
    then have "\<not> undelivered r" by (auto simp: undelivered_def)
    with h handlePrepareContact_gate [of env i item s cid r delay]
    show "campaignQueue ?s1 = campaignQueue s \<and> shippings ?s1 = shippings s" by blast
  qed
  have c: "uniqueShippings s \<longrightarrow>
        uniqueShippings ?s1 \<and> uniqueShippings ?s2
        \<and> (\<forall>k. length (filter (\<lambda>r. sh_campaignId r = cid \<and> sh_contactId r = k) (shippings ?s2))
                 \<le> 1)"
  proof
    assume u: "uniqueShippings s"
    from handlePrepareContact_unique [OF u] have u1: "uniqueShippings ?s1" .
    from handlePrepareContact_unique [OF u1] have u2: "uniqueShippings ?s2" .
    then have "distinct (map pairOf (shippings ?s2))" by (simp add: uniqueShippings_def)
    from distinct_key_count [OF this]
    have "length (filter (\<lambda>r. pairOf r = (cid, k)) (shippings ?s2)) \<le> 1" for k .
    then have "\<forall>k. length (filter (\<lambda>r. sh_campaignId r = cid \<and> sh_contactId r = k)
                     (shippings ?s2)) \<le> 1"
      by (simp add: pairOf_def)
    with u1 u2 show "uniqueShippings ?s1 \<and> uniqueShippings ?s2
        \<and> (\<forall>k. length (filter (\<lambda>r. sh_campaignId r = cid \<and> sh_contactId r = k) (shippings ?s2))
                 \<le> 1)"
      by blast
  qed
  from a handlePrepareContact_queue [of env i cid delay s] c show ?thesis by blast
qed

theorem handlePrepareContact_at_most_once_witness:
  "e_ShowService env1 1 = Inr item1
   \<and> findShipping stateDelivered 1 (cli_id item1) = Some shippingDelivered
   \<and> sh_deliveredAt shippingDelivered = Some 1
   \<and> campaignQueue (snd (handlePrepareContact env1 1 1 0 stateDelivered)) = []
   \<and> shippings (snd (handlePrepareContact env1 1 1 0 stateDelivered)) = [shippingDelivered]"
proof -
  have h: "e_ShowService env1 1 = Inr item1
      \<and> findShipping stateDelivered 1 (cli_id item1) = Some shippingDelivered
      \<and> (sh_deliveredAt shippingDelivered \<noteq> None
           \<or> sh_confirmationRequestedAt shippingDelivered \<noteq> None)"
    by (simp add: env1_def stateDelivered_def findShipping_def shippingDelivered_def
          shipping1_def item1_def)
  with handlePrepareContact_at_most_once [of env1 1 stateDelivered 1 0]
  have "campaignQueue (snd (handlePrepareContact env1 1 1 0 stateDelivered))
          = campaignQueue stateDelivered
      \<and> shippings (snd (handlePrepareContact env1 1 1 0 stateDelivered))
          = shippings stateDelivered"
    by blast
  moreover have "campaignQueue stateDelivered = [] \<and> shippings stateDelivered = [shippingDelivered]
      \<and> sh_deliveredAt shippingDelivered = Some 1"
    by (simp add: stateDelivered_def state1_def shippingDelivered_def)
  ultimately show ?thesis using h by simp
qed

text \<open>
  Claim C2 as stated fails in its second part: two runs of the preparer in sequence
  for the same recipient add two DispatchCampaign jobs for the one shipping record,
  which is still undelivered and unconfirmed.
\<close>

theorem two_dispatch_jobs_counterexample:
  "map j_data (campaignQueue preparedTwice) = [DispatchCampaign 1 1 7, DispatchCampaign 1 1 7]
   \<and> map undelivered (shippings preparedTwice) = [True]"
  by (simp add: preparedTwice_def example_defs handler_defs Let_def)

section \<open>Who writes deliveredAt\<close>

lemma promote_shippings: "shippings (promote rows s) = shippings s"
  by (induction rows arbitrary: s) (simp_all add: Let_def)

lemma handleVerifySchedules_shippings:
  "shippings (handleVerifySchedules now1 now2 s) = shippings s"
  by (simp add: handleVerifySchedules_def Let_def promote_shippings)

lemma handleSendScheduledMessage_shippings:
  "shippings (snd (handleSendScheduledMessage env schedule s)) = shippings s"
  by (auto simp: handleSendScheduledMessage_def sendPath_def scheduleUpdate_def Let_def
        split: sum.splits option.splits)

lemma handleVerifyCampaigns_shippings:
  "shippings (handleVerifyCampaigns dbnow clock s) = shippings s"
  by (simp add: handleVerifyCampaigns_def)

lemma handleProcessCampaign_shippings:
  "shippings (snd (handleProcessCampaign env i delay s)) = shippings s"
  by (simp add: handleProcessCampaign_def campaign_update_def Let_def
        split: option.splits prod.splits)

lemma handleDispatchCampaign_final_send:
  assumes "getCampaign s cid = Some c" and "shippingByPk s sid = Some r"
    and "\<not> (c_confirmation c \<and> sh_confirmation r = None)"
    and "fst (handleDispatchCampaign env cid sid k s) = None"
  shows "shippings (snd (handleDispatchCampaign env cid sid k s)) =
           map (\<lambda>x. if sh_id x = sid then x\<lparr>sh_deliveredAt := Some (e_now env)\<rparr> else x)
             (shippings s)"
proof -
  let ?h = "handleDispatchCampaign env cid sid k s"
  let ?b = "dispatchBody env c sid s"
  from handleDispatchCampaign_shippings [OF assms(1), of env sid k] assms(4)
  have h: "shippings (snd ?h) = shippings (snd ?b)" "fst ?b = None" by auto
  have pe: "?b = (fst ?b, snd ?b)" by simp
  from dispatchBody_outcome [OF assms(2) pe] h(2)
  have "shippings (snd ?b) =
      map (\<lambda>x. if sh_id x = sid then confirmUpdate env c r x else x) (shippings s)"
    by auto
  moreover from assms(3) have "confirmUpdate env c r = (\<lambda>x. x\<lparr>sh_deliveredAt := Some (e_now env)\<rparr>)"
    by (auto simp: confirmUpdate_def isConfirm_def)
  ultimately show ?thesis using h(1) by simp
qed

text \<open>
  Claim C1, as the code has it. No run of the Campaign Verifier, the orchestrator, the
  Contact Preparer, the Completion Evaluator, the Schedule Verifier or the
  scheduled-message handler writes a \<open>deliveredAt\<close>: they leave the \<open>deliveredAt\<close> of
  every shipping record as it was, and a record the preparer creates has it null. The
  DispatchCampaign handler does not read the campaign's status: for a campaign whose
  status is FINALIZADA or FINALIZADA_COM_ERROS, a run that returns normally on a final
  send writes the non-null \<open>deliveredAt\<close> into the shipping record of the job.
\<close>

theorem only_dispatch_writes_deliveredAt:
  "shippings (handleVerifyCampaigns dbnow clock s) = shippings s
   \<and> shippings (snd (handleProcessCampaign env i delay s)) = shippings s
   \<and> (\<exists>n. map sh_deliveredAt (shippings (snd (handlePrepareContact env i cid delay s)))
            = map sh_deliveredAt (shippings s) @ replicate n None)
   \<and> (\<forall>c c' s'. verifyAndFinalizeCampaign (e_now env) c s = Inr (c', s') \<longrightarrow>
          shippings s' = shippings s)
   \<and> shippings (handleVerifySchedules now1 now2 s) = shippings s
   \<and> shippings (snd (handleSendScheduledMessage env schedule s)) = shippings s
   \<and> (\<forall>c r. getCampaign s cid = Some c
          \<and> (c_status c = FINALIZADA \<or> c_status c = FINALIZADA_COM_ERROS)
          \<and> shippingByPk s sid = Some r
          \<and> \<not> (c_confirmation c \<and> sh_confirmation r = None)
          \<and> fst (handleDispatchCampaign env cid sid k s) = None \<longrightarrow>
          shippings (snd (handleDispatchCampaign env cid sid k s)) =
            map (\<lambda>x. if sh_id x = sid then x\<lparr>sh_deliveredAt := Some (e_now env)\<rparr> else x)
              (shippings s))"
proof -
  have ev: "\<forall>c c' s'. verifyAndFinalizeCampaign (e_now env) c s = Inr (c', s') \<longrightarrow>
          shippings s' = shippings s"
    using verifyAndFinalizeCampaign_other by blast
  have dp: "\<forall>c r. getCampaign s cid = Some c
          \<and> (c_status c = FINALIZADA \<or> c_status c = FINALIZADA_COM_ERROS)
          \<and> shippingByPk s sid = Some r
          \<and> \<not> (c_confirmation c \<and> sh_confirmation r = None)
          \<and> fst (handleDispatchCampaign env cid sid k s) = None \<longrightarrow>
          shippings (snd (handleDispatchCampaign env cid sid k s)) =
            map (\<lambda>x. if sh_id x = sid then x\<lparr>sh_deliveredAt := Some (e_now env)\<rparr> else x)
              (shippings s)"
    using handleDispatchCampaign_final_send by blast
  from handleVerifyCampaigns_shippings [of dbnow clock s]
    handleProcessCampaign_shippings [of env i delay s]
    handlePrepareContact_deliveredAt [of env i cid delay s]
    ev handleVerifySchedules_shippings [of now1 now2 s]
    handleSendScheduledMessage_shippings [of env schedule s] dp
  show ?thesis by (intro conjI)
qed

theorem only_dispatch_writes_deliveredAt_witness:
  "getCampaign stateFailed 1 = Some (campaign1\<lparr>c_status := FINALIZADA_COM_ERROS\<rparr>)
   \<and> c_status (campaign1\<lparr>c_status := FINALIZADA_COM_ERROS\<rparr>) = FINALIZADA_COM_ERROS
   \<and> shippingByPk stateFailed 1 = Some shipping1
   \<and> \<not> (c_confirmation (campaign1\<lparr>c_status := FINALIZADA_COM_ERROS\<rparr>)
          \<and> sh_confirmation shipping1 = None)
   \<and> fst (handleDispatchCampaign env1 1 1 7 stateFailed) = None
   \<and> map sh_deliveredAt (shippings stateFailed) = [None]
   \<and> map sh_deliveredAt (shippings (snd (handleDispatchCampaign env1 1 1 7 stateFailed)))
        = [Some 70000]"
proof -
  let ?c = "campaign1\<lparr>c_status := FINALIZADA_COM_ERROS\<rparr>"
  have h: "getCampaign stateFailed 1 = Some ?c
      \<and> (c_status ?c = FINALIZADA \<or> c_status ?c = FINALIZADA_COM_ERROS)
      \<and> shippingByPk stateFailed 1 = Some shipping1
      \<and> \<not> (c_confirmation ?c \<and> sh_confirmation shipping1 = None)"
    by (simp add: stateFailed_def getCampaign_def shippingByPk_def campaign1_def shipping1_def)
  have ok: "fst (handleDispatchCampaign env1 1 1 7 stateFailed) = None"
    by (simp add: stateFailed_def example_defs handler_defs Let_def)
  from only_dispatch_writes_deliveredAt [of _ _ stateFailed env1 _ _ 1 _ _ _ 1 7] h ok
  have e: "shippings (snd (handleDispatchCampaign env1 1 1 7 stateFailed)) =
            map (\<lambda>x. if sh_id x = 1 then x\<lparr>sh_deliveredAt := Some (e_now env1)\<rparr> else x)
              (shippings stateFailed)"
    by blast
  have "map sh_deliveredAt (shippings (snd (handleDispatchCampaign env1 1 1 7 stateFailed)))
        = [Some 70000]"
    by (simp only: e) (simp add: stateFailed_def shipping1_def env1_def)
  moreover have "map sh_deliveredAt (shippings stateFailed) = [None]"
    by (simp add: stateFailed_def shipping1_def)
  moreover have "c_status ?c = FINALIZADA_COM_ERROS" by simp
  ultimately show ?thesis using h ok by (simp only: simp_thms)
qed

text \<open>
  Claim C1 as stated fails: in the run of the pipeline that ends in
  \<open>afterSecondDispatch\<close>, the campaign is in FINALIZADA_COM_ERROS after the first
  dispatch, with its recipient undelivered, and the next DispatchCampaign job writes a
  non-null \<open>deliveredAt\<close> into the shipping record.
\<close>

theorem dispatch_after_terminal_counterexample:
  "map c_status (campaigns afterFailedDispatch) = [FINALIZADA_COM_ERROS]
   \<and> map sh_deliveredAt (shippings afterFailedDispatch) = [None]
   \<and> afterSecondDispatch = snd (handleDispatchCampaign env1 1 1 7 afterFailedDispatch)
   \<and> map sh_deliveredAt (shippings afterSecondDispatch) = [Some 70000]"
proof -
  have a: "map c_status (campaigns afterFailedDispatch) = [FINALIZADA_COM_ERROS]"
    by (simp add: scenario_defs example_defs handler_defs Let_def)
  have b: "map sh_deliveredAt (shippings afterFailedDispatch) = [None]"
    by (simp add: scenario_defs example_defs handler_defs Let_def)
  have c: "map sh_deliveredAt (shippings afterSecondDispatch) = [Some 70000]"
    by (simp add: scenario_defs example_defs handler_defs Let_def)
  from a b c afterSecondDispatch_def show ?thesis by (simp only: simp_thms)
qed

end
